theory Spec2Isabelle
  imports Main
begin

section \<open>Status model: release conditions (package storage)\<close>

text \<open>
  The condition type \<open>releaseapi.ReleaseCondition\<close> and the enumerations of its
  \<open>Type\<close> and \<open>Status\<close> fields are declared in the client set, outside the
  repository; the record below has the five fields the constructors fill in.
  \<open>metav1.Now()\<close> reads the wall clock: the reading is the argument \<open>now\<close> of each
  constructor.
\<close>

datatype ReleaseConditionType = ReleaseAvailable | ReleaseFailure | ReleaseProgressing

datatype ConditionStatus = ConditionTrue | ConditionFalse | ConditionUnknown

type_synonym Time = nat

record ReleaseCondition =
  Type :: ReleaseConditionType
  Status :: ConditionStatus
  LastTransitionTime :: Time
  Reason :: string
  Message :: string

definition ReasonAvailable :: string where
  "ReasonAvailable = ''Available''"

definition ReasonFailure :: string where
  "ReasonFailure = ''Failure''"

definition ReasonCreating :: string where
  "ReasonCreating = ''Creating''"

definition ReasonUpdating :: string where
  "ReasonUpdating = ''Updating''"

definition ReasonRollbacking :: string where
  "ReasonRollbacking = ''Rollbacking''"

definition ConditionAvailable :: "Time \<Rightarrow> ReleaseCondition" where
  "ConditionAvailable now =
     \<lparr>Type = ReleaseAvailable,
      Status = ConditionTrue,
      LastTransitionTime = now,
      Reason = ReasonAvailable,
      Message = ''''\<rparr>"

definition ConditionFailure :: "Time \<Rightarrow> string \<Rightarrow> ReleaseCondition" where
  "ConditionFailure now message =
     \<lparr>Type = ReleaseFailure,
      Status = ConditionTrue,
      LastTransitionTime = now,
      Reason = ReasonFailure,
      Message = message\<rparr>"

definition ConditionCreating :: "Time \<Rightarrow> ReleaseCondition" where
  "ConditionCreating now =
     \<lparr>Type = ReleaseProgressing,
      Status = ConditionTrue,
      LastTransitionTime = now,
      Reason = ReasonCreating,
      Message = ''''\<rparr>"

definition ConditionUpdating :: "Time \<Rightarrow> ReleaseCondition" where
  "ConditionUpdating now =
     \<lparr>Type = ReleaseProgressing,
      Status = ConditionTrue,
      LastTransitionTime = now,
      Reason = ReasonUpdating,
      Message = ''''\<rparr>"

definition ConditionRollbacking :: "Time \<Rightarrow> ReleaseCondition" where
  "ConditionRollbacking now =
     \<lparr>Type = ReleaseProgressing,
      Status = ConditionTrue,
      LastTransitionTime = now,
      Reason = ReasonRollbacking,
      Message = ''''\<rparr>"

section \<open>Objects, errors and the external collaborators\<close>

text \<open>
  A release as the controller sees it: the controller reads no field of it and only
  hands the cached copy to the manager.
\<close>

record Release =
  Namespace :: string
  Name :: string
  Conditions :: "ReleaseCondition list"

text \<open>
  Go errors. \<open>errors.IsNotFound\<close> tells the not-found answer of the lister from every
  other error.
\<close>

datatype error = NotFound string | Failed string

fun IsNotFound :: "error \<Rightarrow> bool" where
  "IsNotFound (NotFound _) = True"
| "IsNotFound (Failed _) = False"

text \<open>
  What the informer hands to an event handler (an \<open>interface{}\<close> in the source): a
  release, a tombstone \<open>cache.DeletedFinalStateUnknown\<close> holding the key and the last
  known object, or anything else.
\<close>

datatype obj =
    ReleaseObj Release
  | DeletedFinalStateUnknown string obj
  | OtherObj

text \<open>
  The collaborators of the controller are library code or code of other packages; they
  are parameters of the model. \<open>SplitMetaNamespaceKey\<close> and
  \<open>DeletionHandlingMetaNamespaceKeyFunc\<close> are the key functions of the cache library,
  \<open>releaseLister_Get\<close> is \<open>rc.releaseLister.Releases(namespace).Get(name)\<close>, the three
  \<open>manager\<close> fields are the answers of \<open>rc.manager\<close>, and \<open>WaitForCacheSync\<close> is the
  answer of \<open>cache.WaitForCacheSync(stopCh, rc.releaseHasSynced)\<close>: false when the stop
  signal arrives before the cache has synced. The answers are those given during the
  run considered; one call of \<open>processNextWorkItem\<close> asks each collaborator at most once.
\<close>

record collaborators =
  SplitMetaNamespaceKey :: "string \<Rightarrow> error + string \<times> string"
  DeletionHandlingMetaNamespaceKeyFunc :: "obj \<Rightarrow> error + string"
  releaseLister_Get :: "string \<Rightarrow> string \<Rightarrow> error + Release"
  manager_Trigger :: "Release \<Rightarrow> error option"
  manager_Delete :: "string \<Rightarrow> string \<Rightarrow> error option"
  manager_Run :: "error option"
  WaitForCacheSync :: bool

section \<open>Observable calls\<close>

text \<open>
  Every call the controller makes on the queue, the lister, the manager and the logger
  is recorded, in order, in a trace. \<open>Queue_Forget\<close> and \<open>Queue_ShutDown\<close> are the two
  methods of the queue's interface that the controller could call as well.
\<close>

datatype logarg = KeyArg string | ErrArg error | ReleaseArg "Release option"

datatype event =
    Queue_Add string
  | Queue_Get
  | Queue_Done string
  | Queue_AddRateLimited string
  | Queue_Forget string
  | Queue_ShutDown
  | Lister_Get string string
  | Manager_Run
  | Manager_Trigger Release
  | Manager_Delete string string
  | Glog_Info string
  | Glog_Error string
  | Glog_Errorf string "logarg list"
  | Glog_V_Infof nat string "logarg list"
  | Cache_WaitForCacheSync
  | Go_wait_Until_worker
  | Recv_stopCh

section \<open>The retry queue\<close>

text \<open>
  Modelled from the spec: the rate-limited work queue \<open>workqueue.RateLimitingInterface\<close>
  is a library type, not in the sources; the state and the operations below follow the
  contract of the retry queue (section 4.1 of the specification). \<open>pending\<close> is the
  queue in order, \<open>dirty\<close> the keys that are pending or were added again while being
  processed, \<open>processing\<close> the keys handed out by \<open>Get\<close> and not yet \<open>Done\<close>,
  \<open>failures\<close> the per-key counter of the rate limiter, \<open>waiting\<close> the keys whose
  rate-limited re-add is scheduled and has not come due. The worker is followed on
  its own: \<open>pending\<close> holds the keys that \<open>Get\<close> hands out to it, in order, and a
  \<open>Get\<close> that blocks is one for which no further key arrives.
\<close>

record RateLimitingQueue =
  pending :: "string list"
  dirty :: "string set"
  processing :: "string set"
  shuttingDown :: bool
  failures :: "string \<Rightarrow> nat"
  waiting :: "string list"

text \<open>
  Modelled from the spec: \<open>Add(key)\<close> of the library queue. It inserts the key if it
  is not already pending; a key being processed is only marked, and becomes pending
  again at its \<open>Done\<close>.
\<close>

definition wq_Add :: "string \<Rightarrow> RateLimitingQueue \<Rightarrow> RateLimitingQueue" where
  "wq_Add key q =
     (if key \<in> dirty q then q
      else if key \<in> processing q then q\<lparr>dirty := insert key (dirty q)\<rparr>
      else q\<lparr>dirty := insert key (dirty q), pending := pending q @ [key]\<rparr>)"

text \<open>
  Modelled from the spec: \<open>Get()\<close> of the library queue. It blocks until a key is
  available or the queue is shut down, marks the key as processing and removes it from
  the pending set.
\<close>

datatype get_result = Got string | Quit | Blocks

definition wq_Get :: "RateLimitingQueue \<Rightarrow> get_result \<times> RateLimitingQueue" where
  "wq_Get q =
     (case pending q of
        [] \<Rightarrow> (if shuttingDown q then (Quit, q) else (Blocks, q))
      | key # rest \<Rightarrow>
          (Got key,
           q\<lparr>pending := rest, processing := insert key (processing q),
             dirty := dirty q - {key}\<rparr>))"

text \<open>
  Modelled from the spec: \<open>Done(key)\<close> of the library queue. The key is no longer
  processing; if it was added again while processing, it becomes pending again.
\<close>

definition wq_Done :: "string \<Rightarrow> RateLimitingQueue \<Rightarrow> RateLimitingQueue" where
  "wq_Done key q =
     (let q' = q\<lparr>processing := processing q - {key}\<rparr>
      in if key \<in> dirty q' then q'\<lparr>pending := pending q' @ [key]\<rparr> else q')"

text \<open>
  Modelled from the spec: \<open>AddRateLimited(key)\<close> of the library queue. It records one
  more failure of the key and schedules its re-add after the backoff delay; the delay
  itself is not modelled.
\<close>

definition wq_AddRateLimited :: "string \<Rightarrow> RateLimitingQueue \<Rightarrow> RateLimitingQueue" where
  "wq_AddRateLimited key q =
     q\<lparr>failures := (failures q)(key := Suc (failures q key)),
       waiting := waiting q @ [key]\<rparr>"

text \<open>
  Modelled from the spec: \<open>Forget(key)\<close> and \<open>ShutDown()\<close> of the library queue. The
  first resets the failure counter of the key, the second unblocks every \<open>Get\<close> for
  good.
\<close>

definition wq_Forget :: "string \<Rightarrow> RateLimitingQueue \<Rightarrow> RateLimitingQueue" where
  "wq_Forget key q = q\<lparr>failures := (failures q)(key := 0)\<rparr>"

definition wq_ShutDown :: "RateLimitingQueue \<Rightarrow> RateLimitingQueue" where
  "wq_ShutDown q = q\<lparr>shuttingDown := True\<rparr>"

section \<open>The release controller (package release)\<close>

text \<open>
  The state the controller acts on: its queue and the trace of calls made so far.
\<close>

record world =
  queue :: RateLimitingQueue
  trace :: "event list"

definition emit :: "event \<Rightarrow> world \<Rightarrow> world" where
  "emit e w = w\<lparr>trace := trace w @ [e]\<rparr>"

text \<open>The events of a run from \<open>w\<close> to \<open>w'\<close>.\<close>

definition emitted :: "world \<Rightarrow> world \<Rightarrow> event list" where
  "emitted w w' = drop (length (trace w)) (trace w')"

definition queue_Add :: "string \<Rightarrow> world \<Rightarrow> world" where
  "queue_Add key w = (emit (Queue_Add key) w)\<lparr>queue := wq_Add key (queue w)\<rparr>"

definition queue_Get :: "world \<Rightarrow> get_result \<times> world" where
  "queue_Get w =
     (let (r, q) = wq_Get (queue w) in (r, (emit Queue_Get w)\<lparr>queue := q\<rparr>))"

definition queue_Done :: "string \<Rightarrow> world \<Rightarrow> world" where
  "queue_Done key w = (emit (Queue_Done key) w)\<lparr>queue := wq_Done key (queue w)\<rparr>"

definition queue_AddRateLimited :: "string \<Rightarrow> world \<Rightarrow> world" where
  "queue_AddRateLimited key w =
     (emit (Queue_AddRateLimited key) w)\<lparr>queue := wq_AddRateLimited key (queue w)\<rparr>"

text \<open>\<open>keyForObj\<close> and \<open>enqueueRelease\<close>.\<close>

definition keyForObj :: "collaborators \<Rightarrow> obj \<Rightarrow> error + string" where
  "keyForObj rc obj = DeletionHandlingMetaNamespaceKeyFunc rc obj"

definition enqueueRelease :: "collaborators \<Rightarrow> obj \<Rightarrow> world \<Rightarrow> world" where
  "enqueueRelease rc obj w =
     (case keyForObj rc obj of
        Inl err \<Rightarrow> emit (Glog_Errorf ''Can't get obj key: %v'' [ErrArg err]) w
      | Inr key \<Rightarrow>
          queue_Add key (emit (Glog_V_Infof 4 ''Enqueue: %s'' [KeyArg key]) w))"

text \<open>
  The event handlers \<open>NewReleaseController\<close> registers with the informer: \<open>AddFunc\<close> and
  \<open>DeleteFunc\<close> are \<open>rc.enqueueRelease\<close>, \<open>UpdateFunc\<close> enqueues the new object.
\<close>

datatype informer_event = OnAdd obj | OnUpdate obj obj | OnDelete obj

fun handle_event :: "collaborators \<Rightarrow> informer_event \<Rightarrow> world \<Rightarrow> world" where
  "handle_event rc (OnAdd obj) w = enqueueRelease rc obj w"
| "handle_event rc (OnUpdate oldObj newObj) w = enqueueRelease rc newObj w"
| "handle_event rc (OnDelete obj) w = enqueueRelease rc obj w"

text \<open>
  \<open>processNextWorkItem\<close>. The part of the body after \<open>defer rc.queue.Done(key)\<close> is
  \<open>handle_key\<close>; the deferred call runs when that part returns, on each of its paths.
  The result \<open>None\<close> stands for a call that does not return: \<open>Get\<close> blocks on an empty
  queue that is not shut down. The key is a string (the source asserts it with
  \<open>key.(string)\<close>; \<open>enqueueRelease\<close> adds nothing else).
\<close>

definition handle_key :: "collaborators \<Rightarrow> string \<Rightarrow> world \<Rightarrow> bool \<times> world" where
  "handle_key rc key w0 =
     (let w1 = emit (Glog_V_Infof 4 ''Handle release by key: %s'' [KeyArg key]) w0 in
      case SplitMetaNamespaceKey rc key of
        Inl err \<Rightarrow>
          (False, emit (Glog_Errorf ''Can't recognize key of release: %s'' [KeyArg key]) w1)
      | Inr (namespace, name) \<Rightarrow>
          (let w2 = emit (Lister_Get namespace name) w1;
               looked = releaseLister_Get rc namespace name
           in if (case looked of Inl err \<Rightarrow> \<not> IsNotFound err | Inr _ \<Rightarrow> False)
              then (False, emit (Glog_Errorf ''Can't get release: %s'' [KeyArg key]) w2)
              else
                (let (release, err, w3) =
                       (case looked of
                          Inl _ \<Rightarrow>
                            (None, manager_Delete rc namespace name,
                             emit (Manager_Delete namespace name) w2)
                        | Inr r \<Rightarrow>
                            (Some r, manager_Trigger rc r, emit (Manager_Trigger r) w2))
                 in if err \<noteq> None
                    then (False,
                          emit (Glog_Errorf ''Can't handle release: %+v'' [ReleaseArg release])
                            (queue_AddRateLimited key w3))
                    else (True, emit (Glog_V_Infof 4 ''Handled release: %s'' [KeyArg key]) w3))))"

definition processNextWorkItem :: "collaborators \<Rightarrow> world \<Rightarrow> bool option \<times> world" where
  "processNextWorkItem rc w =
     (case queue_Get w of
        (Blocks, w') \<Rightarrow> (None, w')
      | (Quit, w') \<Rightarrow> (Some False, emit (Glog_Error ''Unexpected quit of release queue'') w')
      | (Got key, w') \<Rightarrow>
          (let (r, w'') = handle_key rc key w' in (Some r, queue_Done key w'')))"

text \<open>
  The loop \<open>for rc.processNextWorkItem() { }\<close> of \<open>worker\<close>: it goes on while an item
  was handled, returns at the first \<open>false\<close>, and does not return (\<open>None\<close>) when \<open>Get\<close>
  blocks. Every item handled takes one key off the queue, so the recursion ends.
\<close>

function worker_loop :: "collaborators \<Rightarrow> world \<Rightarrow> unit option \<times> world" where
  "worker_loop rc w =
     (case processNextWorkItem rc w of
        (Some True, w') \<Rightarrow> worker_loop rc w'
      | (Some False, w') \<Rightarrow> (Some (), w')
      | (None, w') \<Rightarrow> (None, w'))"
  by pat_completeness auto
termination
  by (relation "measure (\<lambda>(rc, w). length (pending (queue w)))")
    (auto simp: processNextWorkItem_def queue_Get_def wq_Get_def queue_Done_def wq_Done_def
      handle_key_def emit_def queue_AddRateLimited_def wq_AddRateLimited_def Let_def
      split: list.splits if_splits prod.splits sum.splits get_result.splits)

declare worker_loop.simps [simp del]

definition worker :: "collaborators \<Rightarrow> world \<Rightarrow> unit option \<times> world" where
  "worker rc w0 =
     (let w1 = emit Manager_Run w0;
          w2 = (case manager_Run rc of
                  Some err \<Rightarrow> emit (Glog_Errorf ''Can't run manager: %v'' [ErrArg err]) w1
                | None \<Rightarrow> w1);
          w3 = emit (Glog_V_Infof 3 ''Processing ReleaseController releases'' []) w2
      in worker_loop rc w3)"

text \<open>
  \<open>wait.Until(rc.worker, time.Second, stopCh)\<close> calls \<open>worker\<close> again and again, a
  second after each return, until the stop channel is closed. The number \<open>n\<close> of calls
  it starts before the stop signal is a parameter; a call that does not return leaves
  the goroutine blocked, and no later call starts.
\<close>

fun wait_Until_worker :: "collaborators \<Rightarrow> nat \<Rightarrow> world \<Rightarrow> unit option \<times> world" where
  "wait_Until_worker rc 0 w = (Some (), w)"
| "wait_Until_worker rc (Suc n) w =
     (case worker rc w of
        (Some _, w') \<Rightarrow> wait_Until_worker rc n w'
      | (None, w') \<Rightarrow> (None, w'))"

text \<open>
  The goroutine started by \<open>go wait.Until(rc.worker, time.Second, stopCh)\<close> runs beside
  \<open>Run\<close>, which goes on at once to \<open><-stopCh\<close> and never joins it. The goroutine makes
  the calls of its worker cycles one after the other, and the stop signal finds it
  after some number \<open>k\<close> of them: between two cycles, blocked in \<open>Get\<close>, or in the middle
  of an item, after the \<open>Get\<close> of a key and before its \<open>Done\<close>. The state at that moment
  is the state after these \<open>k\<close> calls: each of them is in the trace and each call on
  the queue has had its effect, the later calls have had none.
\<close>

fun queue_after_call :: "event \<Rightarrow> RateLimitingQueue \<Rightarrow> RateLimitingQueue" where
  "queue_after_call (Queue_Add key) q = wq_Add key q"
| "queue_after_call Queue_Get q = snd (wq_Get q)"
| "queue_after_call (Queue_Done key) q = wq_Done key q"
| "queue_after_call (Queue_AddRateLimited key) q = wq_AddRateLimited key q"
| "queue_after_call (Queue_Forget key) q = wq_Forget key q"
| "queue_after_call Queue_ShutDown q = wq_ShutDown q"
| "queue_after_call _ q = q"

fun queue_after_calls :: "event list \<Rightarrow> RateLimitingQueue \<Rightarrow> RateLimitingQueue" where
  "queue_after_calls [] q = q"
| "queue_after_calls (e # es) q = queue_after_calls es (queue_after_call e q)"

text \<open>
  The calls the goroutine makes in the \<open>n\<close> worker cycles it starts, and the state after
  the first \<open>k\<close> of them.
\<close>

definition goroutine_calls :: "collaborators \<Rightarrow> nat \<Rightarrow> world \<Rightarrow> event list" where
  "goroutine_calls rc n w = emitted w (snd (wait_Until_worker rc n w))"

definition goroutine_after :: "collaborators \<Rightarrow> nat \<Rightarrow> nat \<Rightarrow> world \<Rightarrow> world" where
  "goroutine_after rc n k w =
     (let calls = take k (goroutine_calls rc n w)
      in w\<lparr>queue := queue_after_calls calls (queue w), trace := trace w @ calls\<rparr>)"

text \<open>
  \<open>Run\<close>. After the \<open>go\<close> statement it waits for the stop signal only: when the signal
  arrives it logs and returns, wherever the goroutine is. \<open>n\<close> is the number of worker
  cycles the goroutine starts and \<open>k\<close> the number of calls it has made when the stop
  signal arrives.
\<close>

definition Run :: "collaborators \<Rightarrow> nat \<Rightarrow> nat \<Rightarrow> world \<Rightarrow> world" where
  "Run rc n k w0 =
     (let w1 = emit (Glog_Info ''Running ReleaseController'') w0;
          w2 = emit Cache_WaitForCacheSync w1
      in if \<not> WaitForCacheSync rc
         then emit (Glog_Errorf ''Can't sync cache'' []) w2
         else
           (let w3 = emit (Glog_Info ''Sync ReleaseController cache successfully'') w2;
                w4 = emit Go_wait_Until_worker w3;
                w5 = goroutine_after rc n k w4;
                w6 = emit Recv_stopCh w5
            in emit (Glog_Info ''Shutting down ReleaseController'') w6))"

section \<open>Notions used to state the properties\<close>

text \<open>
  A key handled without error, in the words of the specification: the key decodes into
  namespace and name, the cache lookup finds the release or reports that it is not
  found, and the action that follows (\<open>Trigger\<close> for a release found, \<open>Delete\<close> for one
  not found) reports no error.
\<close>

definition handled_without_error :: "collaborators \<Rightarrow> string \<Rightarrow> bool" where
  "handled_without_error rc key =
     (case SplitMetaNamespaceKey rc key of
        Inl _ \<Rightarrow> False
      | Inr (namespace, name) \<Rightarrow>
          (case releaseLister_Get rc namespace name of
             Inr release \<Rightarrow> manager_Trigger rc release = None
           | Inl err \<Rightarrow> IsNotFound err \<and> manager_Delete rc namespace name = None))"

text \<open>The calls that handling work items can make.\<close>

fun item_event :: "event \<Rightarrow> bool" where
  "item_event Queue_Get = True"
| "item_event (Queue_Done _) = True"
| "item_event (Queue_AddRateLimited _) = True"
| "item_event (Lister_Get _ _) = True"
| "item_event (Manager_Trigger _) = True"
| "item_event (Manager_Delete _ _) = True"
| "item_event (Glog_Error _) = True"
| "item_event (Glog_Errorf _ _) = True"
| "item_event (Glog_V_Infof _ _ _) = True"
| "item_event _ = False"

section \<open>A sample environment\<close>

text \<open>
  Concrete collaborators on which the properties are evaluated. The key functions
  behave as those of the cache library do: a key is \<open>namespace/name\<close> or a bare name,
  and a tombstone resolves to the key it carries. In the sample cache, \<open>a/r2\<close> and
  \<open>a/r3\<close> exist, the lookup of \<open>a/r4\<close> fails with a cache error, and every other
  release is not found; \<open>Trigger\<close> fails for \<open>r3\<close>, \<open>Delete\<close> fails in namespace \<open>b\<close>.
\<close>

fun split_slash :: "string \<Rightarrow> string list" where
  "split_slash [] = [[]]"
| "split_slash (c # cs) =
     (if c = CHR ''/'' then [] # split_slash cs
      else (case split_slash cs of [] \<Rightarrow> [[c]] | p # ps \<Rightarrow> (c # p) # ps))"

definition sample_SplitMetaNamespaceKey :: "string \<Rightarrow> error + string \<times> string" where
  "sample_SplitMetaNamespaceKey key =
     (case split_slash key of
        [name] \<Rightarrow> Inr ([], name)
      | [namespace, name] \<Rightarrow> Inr (namespace, name)
      | _ \<Rightarrow> Inl (Failed ''unexpected key format''))"

fun sample_KeyFunc :: "obj \<Rightarrow> error + string" where
  "sample_KeyFunc (DeletedFinalStateUnknown key _) = Inr key"
| "sample_KeyFunc (ReleaseObj r) =
     Inr (if Namespace r = [] then Name r else Namespace r @ ''/'' @ Name r)"
| "sample_KeyFunc OtherObj = Inl (Failed ''object has no meta'')"

definition sample_release :: "string \<Rightarrow> string \<Rightarrow> Release" where
  "sample_release namespace name =
     \<lparr>Namespace = namespace, Name = name, Conditions = []\<rparr>"

definition sample_rc :: collaborators where
  "sample_rc =
     \<lparr>SplitMetaNamespaceKey = sample_SplitMetaNamespaceKey,
      DeletionHandlingMetaNamespaceKeyFunc = sample_KeyFunc,
      releaseLister_Get = (\<lambda>namespace name.
        if namespace = ''a'' \<and> (name = ''r2'' \<or> name = ''r3'')
        then Inr (sample_release namespace name)
        else if namespace = ''a'' \<and> name = ''r4'' then Inl (Failed ''cache unavailable'')
        else Inl (NotFound name)),
      manager_Trigger = (\<lambda>r. if Name r = ''r3'' then Some (Failed ''trigger failed'') else None),
      manager_Delete = (\<lambda>namespace name.
        if namespace = ''b'' then Some (Failed ''delete failed'') else None),
      manager_Run = None,
      WaitForCacheSync = True\<rparr>"

text \<open>
  A world whose queue holds the given keys in order, none in processing, with the
  given failure counters and an empty trace.
\<close>

definition sample_world :: "string list \<Rightarrow> (string \<Rightarrow> nat) \<Rightarrow> world" where
  "sample_world keys fails =
     \<lparr>queue = \<lparr>pending = keys, dirty = set keys, processing = {}, shuttingDown = False,
                failures = fails, waiting = []\<rparr>,
      trace = []\<rparr>"

text \<open>Failure counters: none recorded, and two failures recorded for \<open>a/r1\<close>.\<close>

definition no_failures :: "string \<Rightarrow> nat" where
  "no_failures key = 0"

definition sample_failures :: "string \<Rightarrow> nat" where
  "sample_failures key = (if key = ''a/r1'' then 2 else 0)"

section \<open>Auxiliary facts\<close>

lemmas pnwi_defs = processNextWorkItem_def handle_key_def queue_Get_def wq_Get_def
  queue_Done_def wq_Done_def queue_AddRateLimited_def wq_AddRateLimited_def emit_def Let_def

lemma emitted_append: "trace w' = trace w @ es \<Longrightarrow> emitted w w' = es"
  by (simp add: emitted_def)

lemma pnwi_head:
  "pending (queue w) = key # rest \<Longrightarrow>
     fst (processNextWorkItem rc w) = Some (handled_without_error rc key)
     \<and> pending (queue (snd (processNextWorkItem rc w))) = rest"
  by (simp add: pnwi_defs handled_without_error_def split: sum.splits prod.splits)

lemma pnwi_empty:
  "pending (queue w) = [] \<Longrightarrow>
     fst (processNextWorkItem rc w) = (if shuttingDown (queue w) then Some False else None)
     \<and> pending (queue (snd (processNextWorkItem rc w))) = []"
  by (simp add: pnwi_defs)

lemma pnwi_trace:
  "\<exists>es. trace (snd (processNextWorkItem rc w)) = trace w @ es \<and> list_all item_event es"
  by (simp add: pnwi_defs split: sum.splits prod.splits list.splits)

lemma pnwi_shuttingDown:
  "shuttingDown (queue (snd (processNextWorkItem rc w))) = shuttingDown (queue w)"
  by (simp add: pnwi_defs split: sum.splits prod.splits list.splits)

lemma worker_loop_trace:
  "\<exists>es. trace (snd (worker_loop rc w)) = trace w @ es \<and> list_all item_event es"
proof (induction rc w rule: worker_loop.induct)
  case (1 rc w)
  obtain r w' where step: "processNextWorkItem rc w = (r, w')"
    by (cases "processNextWorkItem rc w")
  from pnwi_trace [of rc w] step obtain es where
    es: "trace w' = trace w @ es" "list_all item_event es" by auto
  show ?case
  proof (cases "r = Some True")
    case True
    with "1.IH" [OF step [symmetric]] obtain es' where
      "trace (snd (worker_loop rc w')) = trace w' @ es'" "list_all item_event es'"
      by auto
    with es True step show ?thesis
      by (subst worker_loop.simps) auto
  next
    case False
    with es step show ?thesis
      by (subst worker_loop.simps) (auto split: option.splits bool.splits)
  qed
qed

lemma worker_loop_shuttingDown:
  "shuttingDown (queue (snd (worker_loop rc w))) = shuttingDown (queue w)"
proof (induction rc w rule: worker_loop.induct)
  case (1 rc w)
  obtain r w' where step: "processNextWorkItem rc w = (r, w')"
    by (cases "processNextWorkItem rc w")
  with pnwi_shuttingDown [of rc w]
  have sd: "shuttingDown (queue w') = shuttingDown (queue w)" by simp
  show ?case
  proof (cases "r = Some True")
    case True
    with "1.IH" [OF step [symmetric]] step sd show ?thesis
      by (subst worker_loop.simps) auto
  next
    case False
    with sd step show ?thesis
      by (subst worker_loop.simps) (auto split: option.splits bool.splits)
  qed
qed

lemma worker_loop_first_failure:
  "pending (queue w) = ks @ key # rest \<Longrightarrow>
   \<forall>k\<in>set ks. handled_without_error rc k \<Longrightarrow>
   \<not> handled_without_error rc key \<Longrightarrow>
     fst (worker_loop rc w) = Some () \<and> pending (queue (snd (worker_loop rc w))) = rest"
proof (induction ks arbitrary: w)
  case Nil
  then have "pending (queue w) = key # rest" by simp
  from pnwi_head [OF this, of rc] Nil.prems(3) show ?case
    by (subst (1 2) worker_loop.simps) (auto split: prod.splits)
next
  case (Cons k ks)
  then have "pending (queue w) = k # (ks @ key # rest)" by simp
  from pnwi_head [OF this, of rc] Cons.prems(2)
  have h: "fst (processNextWorkItem rc w) = Some True"
    "pending (queue (snd (processNextWorkItem rc w))) = ks @ key # rest" by auto
  from Cons.IH [OF h(2)] Cons.prems
  have "fst (worker_loop rc (snd (processNextWorkItem rc w))) = Some ()
      \<and> pending (queue (snd (worker_loop rc (snd (processNextWorkItem rc w))))) = rest"
    by simp
  with h(1) show ?case
    by (subst (1 2) worker_loop.simps) (auto split: prod.splits)
qed

lemma worker_trace:
  "\<exists>es. trace (snd (worker rc w)) = trace w @ Manager_Run # es \<and> list_all item_event es"
proof -
  define w3 where "w3 = emit (Glog_V_Infof 3 ''Processing ReleaseController releases'' [])
    (case manager_Run rc of
       Some err \<Rightarrow> emit (Glog_Errorf ''Can't run manager: %v'' [ErrArg err]) (emit Manager_Run w)
     | None \<Rightarrow> emit Manager_Run w)"
  have w: "worker rc w = worker_loop rc w3"
    by (simp add: worker_def w3_def Let_def)
  have "\<exists>es0. trace w3 = trace w @ Manager_Run # es0 \<and> list_all item_event es0"
    by (simp add: w3_def emit_def split: option.splits)
  then obtain es0 where es0: "trace w3 = trace w @ Manager_Run # es0" "list_all item_event es0"
    by blast
  from worker_loop_trace [of rc w3] obtain es where
    "trace (snd (worker_loop rc w3)) = trace w3 @ es" "list_all item_event es" by blast
  with es0 w have "trace (snd (worker rc w)) = trace w @ Manager_Run # (es0 @ es)
     \<and> list_all item_event (es0 @ es)" by simp
  then show ?thesis by blast
qed

lemma worker_shuttingDown:
  "shuttingDown (queue (snd (worker rc w))) = shuttingDown (queue w)"
  by (simp add: worker_def Let_def worker_loop_shuttingDown emit_def split: option.splits)

lemmas sample_defs = sample_rc_def sample_world_def sample_SplitMetaNamespaceKey_def
  sample_release_def no_failures_def sample_failures_def

lemma item_event_set: "list_all item_event es \<Longrightarrow> e \<in> set es \<Longrightarrow> item_event e"
  by (simp add: list_all_iff)

lemma worker_first_failure:
  assumes "pending (queue w) = ks @ key # rest"
    and "\<forall>k\<in>set ks. handled_without_error rc k"
    and "\<not> handled_without_error rc key"
  shows "fst (worker rc w) = Some () \<and> pending (queue (snd (worker rc w))) = rest"
proof -
  define w3 where "w3 = emit (Glog_V_Infof 3 ''Processing ReleaseController releases'' [])
    (case manager_Run rc of
       Some err \<Rightarrow> emit (Glog_Errorf ''Can't run manager: %v'' [ErrArg err]) (emit Manager_Run w)
     | None \<Rightarrow> emit Manager_Run w)"
  have w: "worker rc w = worker_loop rc w3"
    by (simp add: worker_def w3_def Let_def)
  have "queue w3 = queue w"
    by (simp add: w3_def emit_def split: option.splits)
  with assms(1) have "pending (queue w3) = ks @ key # rest" by simp
  from worker_loop_first_failure [OF this assms(2,3)] w show ?thesis by simp
qed

lemma wait_Until_worker_trace:
  "\<exists>es. trace (snd (wait_Until_worker rc n w)) = trace w @ es \<and> Queue_ShutDown \<notin> set es"
proof (induction n arbitrary: w)
  case 0
  show ?case by simp
next
  case (Suc n)
  obtain r w' where step: "worker rc w = (r, w')" by (cases "worker rc w")
  from worker_trace [of rc w] step obtain es where
    es: "trace w' = trace w @ Manager_Run # es" "list_all item_event es" by auto
  from es(2) have nsd: "Queue_ShutDown \<notin> set es"
    using item_event_set by fastforce
  show ?case
  proof (cases r)
    case None
    with step es nsd show ?thesis by simp
  next
    case (Some u)
    from Suc.IH [of w'] obtain es' where
      "trace (snd (wait_Until_worker rc n w')) = trace w' @ es'" "Queue_ShutDown \<notin> set es'"
      by blast
    with Some step es nsd show ?thesis by simp
  qed
qed

lemma wait_Until_worker_shuttingDown:
  "shuttingDown (queue (snd (wait_Until_worker rc n w))) = shuttingDown (queue w)"
proof (induction n arbitrary: w)
  case 0
  show ?case by simp
next
  case (Suc n)
  obtain r w' where step: "worker rc w = (r, w')" by (cases "worker rc w")
  with worker_shuttingDown [of rc w]
  have "shuttingDown (queue w') = shuttingDown (queue w)" by simp
  with Suc.IH [of w'] step show ?case by (cases r) simp_all
qed

lemma queue_after_calls_append:
  "queue_after_calls (es @ es') q = queue_after_calls es' (queue_after_calls es q)"
  by (induction es arbitrary: q) simp_all

lemma queue_after_calls_shuttingDown:
  "Queue_ShutDown \<notin> set es \<Longrightarrow>
     shuttingDown (queue_after_calls es q) = shuttingDown q"
proof (induction es arbitrary: q)
  case Nil
  show ?case by simp
next
  case (Cons e es)
  from Cons.prems have "shuttingDown (queue_after_call e q) = shuttingDown q"
    by (cases e)
      (simp_all add: wq_Add_def wq_Get_def wq_Done_def wq_AddRateLimited_def wq_Forget_def
        Let_def split: list.splits)
  with Cons show ?case by simp
qed

lemma pnwi_calls:
  "\<exists>es. trace (snd (processNextWorkItem rc w)) = trace w @ es
     \<and> queue (snd (processNextWorkItem rc w)) = queue_after_calls es (queue w)"
  by (simp add: pnwi_defs split: sum.splits prod.splits list.splits)

lemma worker_loop_calls:
  "\<exists>es. trace (snd (worker_loop rc w)) = trace w @ es
     \<and> queue (snd (worker_loop rc w)) = queue_after_calls es (queue w)"
proof (induction rc w rule: worker_loop.induct)
  case (1 rc w)
  obtain r w' where step: "processNextWorkItem rc w = (r, w')"
    by (cases "processNextWorkItem rc w")
  from pnwi_calls [of rc w] step obtain es where
    es: "trace w' = trace w @ es" "queue w' = queue_after_calls es (queue w)" by auto
  show ?case
  proof (cases "r = Some True")
    case True
    with "1.IH" [OF step [symmetric]] obtain es' where
      es': "trace (snd (worker_loop rc w')) = trace w' @ es'"
        "queue (snd (worker_loop rc w')) = queue_after_calls es' (queue w')"
      by auto
    have "worker_loop rc w = worker_loop rc w'"
      using True step by (subst worker_loop.simps) simp
    with es es' have "trace (snd (worker_loop rc w)) = trace w @ (es @ es')
      \<and> queue (snd (worker_loop rc w)) = queue_after_calls (es @ es') (queue w)"
      by (simp add: queue_after_calls_append)
    then show ?thesis by blast
  next
    case False
    then have "snd (worker_loop rc w) = w'"
      using step by (subst worker_loop.simps) (auto split: option.splits bool.splits)
    with es show ?thesis by auto
  qed
qed

lemma worker_calls:
  "\<exists>es. trace (snd (worker rc w)) = trace w @ es
     \<and> queue (snd (worker rc w)) = queue_after_calls es (queue w)"
proof -
  define w3 where "w3 = emit (Glog_V_Infof 3 ''Processing ReleaseController releases'' [])
    (case manager_Run rc of
       Some err \<Rightarrow> emit (Glog_Errorf ''Can't run manager: %v'' [ErrArg err]) (emit Manager_Run w)
     | None \<Rightarrow> emit Manager_Run w)"
  have w: "worker rc w = worker_loop rc w3"
    by (simp add: worker_def w3_def Let_def)
  have "\<exists>es0. trace w3 = trace w @ es0 \<and> queue w3 = queue_after_calls es0 (queue w)"
    by (simp add: w3_def emit_def split: option.splits)
  then obtain es0 where es0: "trace w3 = trace w @ es0" "queue w3 = queue_after_calls es0 (queue w)"
    by blast
  from worker_loop_calls [of rc w3] obtain es where
    "trace (snd (worker_loop rc w3)) = trace w3 @ es"
    "queue (snd (worker_loop rc w3)) = queue_after_calls es (queue w3)" by blast
  with es0 w have "trace (snd (worker rc w)) = trace w @ (es0 @ es)
     \<and> queue (snd (worker rc w)) = queue_after_calls (es0 @ es) (queue w)"
    by (simp add: queue_after_calls_append)
  then show ?thesis by blast
qed

lemma wait_Until_worker_calls:
  "\<exists>es. trace (snd (wait_Until_worker rc n w)) = trace w @ es
     \<and> queue (snd (wait_Until_worker rc n w)) = queue_after_calls es (queue w)"
proof (induction n arbitrary: w)
  case 0
  show ?case by simp
next
  case (Suc n)
  obtain r w' where step: "worker rc w = (r, w')" by (cases "worker rc w")
  from worker_calls [of rc w] step obtain es where
    es: "trace w' = trace w @ es" "queue w' = queue_after_calls es (queue w)" by auto
  show ?case
  proof (cases r)
    case None
    with step es show ?thesis by auto
  next
    case (Some u)
    from Suc.IH [of w'] obtain es' where
      "trace (snd (wait_Until_worker rc n w')) = trace w' @ es'"
      "queue (snd (wait_Until_worker rc n w')) = queue_after_calls es' (queue w')"
      by blast
    with Some step es have "trace (snd (wait_Until_worker rc (Suc n) w)) = trace w @ (es @ es')
      \<and> queue (snd (wait_Until_worker rc (Suc n) w)) = queue_after_calls (es @ es') (queue w)"
      by (simp add: queue_after_calls_append)
    then show ?thesis by blast
  qed
qed

lemma goroutine_calls_trace:
  "trace (snd (wait_Until_worker rc n w)) = trace w @ goroutine_calls rc n w
   \<and> Queue_ShutDown \<notin> set (goroutine_calls rc n w)"
proof -
  from wait_Until_worker_trace [of rc n w] obtain es where
    es: "trace (snd (wait_Until_worker rc n w)) = trace w @ es" "Queue_ShutDown \<notin> set es"
    by blast
  from emitted_append [OF es(1)] have "goroutine_calls rc n w = es"
    by (simp add: goroutine_calls_def)
  with es show ?thesis by simp
qed

lemma goroutine_after_all_calls:
  assumes "length (goroutine_calls rc n w) \<le> k"
  shows "goroutine_after rc n k w = snd (wait_Until_worker rc n w)"
proof -
  from wait_Until_worker_calls [of rc n w] obtain es where
    es: "trace (snd (wait_Until_worker rc n w)) = trace w @ es"
      "queue (snd (wait_Until_worker rc n w)) = queue_after_calls es (queue w)"
    by blast
  from emitted_append [OF es(1)] have c: "goroutine_calls rc n w = es"
    by (simp add: goroutine_calls_def)
  with assms have "take k (goroutine_calls rc n w) = es" by simp
  with es show ?thesis
    by (cases w, cases "snd (wait_Until_worker rc n w)") (simp add: goroutine_after_def)
qed

lemma queue_after_calls_processing:
  "key \<in> processing q \<Longrightarrow> Queue_Done key \<notin> set es \<Longrightarrow>
     key \<in> processing (queue_after_calls es q)"
proof (induction es arbitrary: q)
  case Nil
  then show ?case by simp
next
  case (Cons e es)
  from Cons.prems have "key \<in> processing (queue_after_call e q)"
    by (cases e)
      (auto simp: wq_Add_def wq_Get_def wq_Done_def wq_AddRateLimited_def wq_Forget_def
        wq_ShutDown_def Let_def split: list.splits)
  with Cons show ?case by simp
qed

section \<open>Properties of the reconciliation loop\<close>

text \<open>
  Claim C1. The claim reads: for every dequeued key, if the cache lookup returns an error
  that is not a not-found error, the worker calls \<open>AddRateLimited(key)\<close>. The code does
  not: on that path it logs the error and returns \<open>false\<close>, and the deferred
  \<open>Done(key)\<close> is the only call on the queue. The sample key \<open>a/r4\<close>, whose lookup
  fails with a cache error, shows it: no \<open>AddRateLimited\<close> is in the trace and nothing is
  scheduled for a retry.
\<close>

theorem lookup_error_requeue_counterexample:
  "SplitMetaNamespaceKey sample_rc ''a/r4'' = Inr (''a'', ''r4'')
   \<and> releaseLister_Get sample_rc ''a'' ''r4'' = Inl (Failed ''cache unavailable'')
   \<and> \<not> IsNotFound (Failed ''cache unavailable'')
   \<and> Queue_AddRateLimited ''a/r4'' \<notin>
       set (trace (snd (processNextWorkItem sample_rc (sample_world [''a/r4''] no_failures))))
   \<and> waiting (queue (snd (processNextWorkItem sample_rc (sample_world [''a/r4''] no_failures)))) = []"
  by (simp add: pnwi_defs sample_defs)

text \<open>
  Claim C1, as amended. For every dequeued key, if the cache lookup returns an error that
  is not a not-found error, the worker logs the error and returns \<open>false\<close>; it calls
  neither \<open>Trigger\<close> nor \<open>Delete\<close> nor \<open>AddRateLimited\<close> nor \<open>Forget\<close>, and its
  only calls on the queue are \<open>Get\<close> and the deferred \<open>Done(key)\<close>. The key leaves the
  queue, no retry is scheduled and the failure counters are unchanged.
\<close>

theorem lookup_error_logged_and_dropped:
  assumes "pending (queue w) = key # rest"
    and "SplitMetaNamespaceKey rc key = Inr (namespace, name)"
    and "releaseLister_Get rc namespace name = Inl err"
    and "\<not> IsNotFound err"
    and "processNextWorkItem rc w = (r, w')"
  shows "r = Some False
    \<and> emitted w w' =
        [Queue_Get,
         Glog_V_Infof 4 ''Handle release by key: %s'' [KeyArg key],
         Lister_Get namespace name,
         Glog_Errorf ''Can't get release: %s'' [KeyArg key],
         Queue_Done key]
    \<and> Queue_AddRateLimited key \<notin> set (emitted w w')
    \<and> pending (queue w') = rest
    \<and> waiting (queue w') = waiting (queue w)
    \<and> failures (queue w') = failures (queue w)"
  using assms by (auto simp: pnwi_defs emitted_def)

theorem lookup_error_logged_and_dropped_witness:
  "fst (processNextWorkItem sample_rc (sample_world [''a/r4'', ''a/r1''] no_failures)) = Some False
   \<and> emitted (sample_world [''a/r4'', ''a/r1''] no_failures)
       (snd (processNextWorkItem sample_rc (sample_world [''a/r4'', ''a/r1''] no_failures))) =
        [Queue_Get,
         Glog_V_Infof 4 ''Handle release by key: %s'' [KeyArg ''a/r4''],
         Lister_Get ''a'' ''r4'',
         Glog_Errorf ''Can't get release: %s'' [KeyArg ''a/r4''],
         Queue_Done ''a/r4'']
   \<and> pending (queue (snd (processNextWorkItem sample_rc
        (sample_world [''a/r4'', ''a/r1''] no_failures)))) = [''a/r1'']"
proof -
  let ?w = "sample_world [''a/r4'', ''a/r1''] no_failures"
  have 1: "pending (queue ?w) = ''a/r4'' # [''a/r1'']" by (simp add: sample_defs)
  have 2: "SplitMetaNamespaceKey sample_rc ''a/r4'' = Inr (''a'', ''r4'')"
    by (simp add: sample_defs)
  have 3: "releaseLister_Get sample_rc ''a'' ''r4'' = Inl (Failed ''cache unavailable'')"
    by (simp add: sample_defs)
  have 4: "\<not> IsNotFound (Failed ''cache unavailable'')" by simp
  have 5: "processNextWorkItem sample_rc ?w =
    (fst (processNextWorkItem sample_rc ?w), snd (processNextWorkItem sample_rc ?w))" by simp
  from lookup_error_logged_and_dropped [OF 1 2 3 4 5] show ?thesis by simp
qed

text \<open>
  Claim C2. The claim reads: for every dequeued key whose reconcile action succeeds, the
  worker calls \<open>Forget(key)\<close> and \<open>Done(key)\<close>, so the failure counter of the key is
  reset. The code calls \<open>Done(key)\<close> only; \<open>Forget\<close> is called nowhere in the controller.
  The sample key \<open>a/r1\<close> is not found in the cache, its \<open>Delete\<close> succeeds, and the two
  failures recorded for it before are still recorded afterwards, where a \<open>Forget\<close>
  would have reset them.
\<close>

theorem success_forget_counterexample:
  "handled_without_error sample_rc ''a/r1''
   \<and> fst (processNextWorkItem sample_rc (sample_world [''a/r1''] sample_failures)) = Some True
   \<and> Manager_Delete ''a'' ''r1'' \<in>
       set (trace (snd (processNextWorkItem sample_rc (sample_world [''a/r1''] sample_failures))))
   \<and> Queue_Forget ''a/r1'' \<notin>
       set (trace (snd (processNextWorkItem sample_rc (sample_world [''a/r1''] sample_failures))))
   \<and> failures (queue (snd (processNextWorkItem sample_rc
         (sample_world [''a/r1''] sample_failures)))) ''a/r1'' = 2
   \<and> failures (wq_Forget ''a/r1'' (queue (snd (processNextWorkItem sample_rc
         (sample_world [''a/r1''] sample_failures))))) ''a/r1'' = 0"
  by (simp add: pnwi_defs sample_defs handled_without_error_def wq_Forget_def)

text \<open>
  Claim C2, as amended. For every dequeued key whose reconcile action (\<open>Trigger\<close> when
  the release is found in the cache, \<open>Delete\<close> when it is not found) succeeds, the worker
  returns \<open>true\<close> and the deferred \<open>Done(key)\<close> is its last call, so the key is no longer
  marked as processing; it does not call \<open>Forget(key)\<close>, and the failure counters of the
  rate limiter are left as they were.
\<close>

theorem success_done_without_forget:
  assumes "pending (queue w) = key # rest"
    and "SplitMetaNamespaceKey rc key = Inr (namespace, name)"
    and "(releaseLister_Get rc namespace name = Inr release
          \<and> manager_Trigger rc release = None \<and> action = Manager_Trigger release)
       \<or> (releaseLister_Get rc namespace name = Inl err \<and> IsNotFound err
          \<and> manager_Delete rc namespace name = None \<and> action = Manager_Delete namespace name)"
    and "processNextWorkItem rc w = (r, w')"
  shows "r = Some True
    \<and> emitted w w' =
        [Queue_Get,
         Glog_V_Infof 4 ''Handle release by key: %s'' [KeyArg key],
         Lister_Get namespace name,
         action,
         Glog_V_Infof 4 ''Handled release: %s'' [KeyArg key],
         Queue_Done key]
    \<and> Queue_Forget key \<notin> set (emitted w w')
    \<and> failures (queue w') = failures (queue w)
    \<and> waiting (queue w') = waiting (queue w)
    \<and> pending (queue w') = rest
    \<and> key \<notin> processing (queue w')"
  using assms by (auto simp: pnwi_defs emitted_def)

theorem success_done_without_forget_witness:
  "fst (processNextWorkItem sample_rc (sample_world [''a/r1''] sample_failures)) = Some True
   \<and> emitted (sample_world [''a/r1''] sample_failures)
       (snd (processNextWorkItem sample_rc (sample_world [''a/r1''] sample_failures))) =
        [Queue_Get,
         Glog_V_Infof 4 ''Handle release by key: %s'' [KeyArg ''a/r1''],
         Lister_Get ''a'' ''r1'',
         Manager_Delete ''a'' ''r1'',
         Glog_V_Infof 4 ''Handled release: %s'' [KeyArg ''a/r1''],
         Queue_Done ''a/r1'']
   \<and> fst (processNextWorkItem sample_rc (sample_world [''a/r2''] no_failures)) = Some True
   \<and> emitted (sample_world [''a/r2''] no_failures)
       (snd (processNextWorkItem sample_rc (sample_world [''a/r2''] no_failures))) =
        [Queue_Get,
         Glog_V_Infof 4 ''Handle release by key: %s'' [KeyArg ''a/r2''],
         Lister_Get ''a'' ''r2'',
         Manager_Trigger (sample_release ''a'' ''r2''),
         Glog_V_Infof 4 ''Handled release: %s'' [KeyArg ''a/r2''],
         Queue_Done ''a/r2'']"
proof -
  let ?w = "sample_world [''a/r1''] sample_failures"
  let ?v = "sample_world [''a/r2''] no_failures"
  have w1: "pending (queue ?w) = ''a/r1'' # []" by (simp add: sample_defs)
  have w2: "SplitMetaNamespaceKey sample_rc ''a/r1'' = Inr (''a'', ''r1'')"
    by (simp add: sample_defs)
  have w3: "(releaseLister_Get sample_rc ''a'' ''r1'' = Inr (sample_release ''a'' ''r1'')
          \<and> manager_Trigger sample_rc (sample_release ''a'' ''r1'') = None
          \<and> Manager_Delete ''a'' ''r1'' = Manager_Trigger (sample_release ''a'' ''r1''))
       \<or> (releaseLister_Get sample_rc ''a'' ''r1'' = Inl (NotFound ''r1'')
          \<and> IsNotFound (NotFound ''r1'')
          \<and> manager_Delete sample_rc ''a'' ''r1'' = None
          \<and> Manager_Delete ''a'' ''r1'' = Manager_Delete ''a'' ''r1'')"
    by (simp add: sample_defs)
  have w4: "processNextWorkItem sample_rc ?w =
    (fst (processNextWorkItem sample_rc ?w), snd (processNextWorkItem sample_rc ?w))" by simp
  have v1: "pending (queue ?v) = ''a/r2'' # []" by (simp add: sample_defs)
  have v2: "SplitMetaNamespaceKey sample_rc ''a/r2'' = Inr (''a'', ''r2'')"
    by (simp add: sample_defs)
  have v3: "(releaseLister_Get sample_rc ''a'' ''r2'' = Inr (sample_release ''a'' ''r2'')
          \<and> manager_Trigger sample_rc (sample_release ''a'' ''r2'') = None
          \<and> Manager_Trigger (sample_release ''a'' ''r2'') = Manager_Trigger (sample_release ''a'' ''r2''))
       \<or> (releaseLister_Get sample_rc ''a'' ''r2'' = Inl (NotFound ''r2'')
          \<and> IsNotFound (NotFound ''r2'')
          \<and> manager_Delete sample_rc ''a'' ''r2'' = None
          \<and> Manager_Trigger (sample_release ''a'' ''r2'') = Manager_Delete ''a'' ''r2'')"
    by (simp add: sample_defs)
  have v4: "processNextWorkItem sample_rc ?v =
    (fst (processNextWorkItem sample_rc ?v), snd (processNextWorkItem sample_rc ?v))" by simp
  from success_done_without_forget [OF w1 w2 w3 w4]
       success_done_without_forget [OF v1 v2 v3 v4]
  show ?thesis by simp
qed

text \<open>
  Claim C4. For every dequeued key, if \<open>Trigger(release)\<close> or \<open>Delete(namespace, name)\<close>
  returns an error, the worker calls \<open>AddRateLimited(key)\<close> and then \<open>Done(key)\<close>: a
  retry of the key is scheduled, its failure counter grows by one, and the call returns
  \<open>false\<close> as an ordinary result, on which the loop of the worker returns as well.
\<close>

theorem action_error_requeued_then_done:
  assumes "pending (queue w) = key # rest"
    and "SplitMetaNamespaceKey rc key = Inr (namespace, name)"
    and "(releaseLister_Get rc namespace name = Inr release
          \<and> manager_Trigger rc release = Some failure
          \<and> action = Manager_Trigger release \<and> logged = Some release)
       \<or> (releaseLister_Get rc namespace name = Inl err \<and> IsNotFound err
          \<and> manager_Delete rc namespace name = Some failure
          \<and> action = Manager_Delete namespace name \<and> logged = None)"
    and "processNextWorkItem rc w = (r, w')"
  shows "r = Some False
    \<and> emitted w w' =
        [Queue_Get,
         Glog_V_Infof 4 ''Handle release by key: %s'' [KeyArg key],
         Lister_Get namespace name,
         action,
         Queue_AddRateLimited key,
         Glog_Errorf ''Can't handle release: %+v'' [ReleaseArg logged],
         Queue_Done key]
    \<and> waiting (queue w') = waiting (queue w) @ [key]
    \<and> failures (queue w') key = Suc (failures (queue w) key)
    \<and> pending (queue w') = rest
    \<and> worker_loop rc w = (Some (), w')"
proof -
  from assms have "r = Some False" by (auto simp: pnwi_defs)
  with assms(4) have "worker_loop rc w = (Some (), w')"
    by (subst worker_loop.simps) simp
  with assms show ?thesis by (auto simp: pnwi_defs emitted_def)
qed

theorem action_error_requeued_then_done_witness:
  "fst (processNextWorkItem sample_rc (sample_world [''a/r3'', ''a/r1''] no_failures)) = Some False
   \<and> emitted (sample_world [''a/r3'', ''a/r1''] no_failures)
       (snd (processNextWorkItem sample_rc (sample_world [''a/r3'', ''a/r1''] no_failures))) =
        [Queue_Get,
         Glog_V_Infof 4 ''Handle release by key: %s'' [KeyArg ''a/r3''],
         Lister_Get ''a'' ''r3'',
         Manager_Trigger (sample_release ''a'' ''r3''),
         Queue_AddRateLimited ''a/r3'',
         Glog_Errorf ''Can't handle release: %+v'' [ReleaseArg (Some (sample_release ''a'' ''r3''))],
         Queue_Done ''a/r3'']
   \<and> waiting (queue (snd (processNextWorkItem sample_rc
         (sample_world [''a/r3'', ''a/r1''] no_failures)))) = [''a/r3'']
   \<and> fst (processNextWorkItem sample_rc (sample_world [''b/x''] no_failures)) = Some False
   \<and> emitted (sample_world [''b/x''] no_failures)
       (snd (processNextWorkItem sample_rc (sample_world [''b/x''] no_failures))) =
        [Queue_Get,
         Glog_V_Infof 4 ''Handle release by key: %s'' [KeyArg ''b/x''],
         Lister_Get ''b'' ''x'',
         Manager_Delete ''b'' ''x'',
         Queue_AddRateLimited ''b/x'',
         Glog_Errorf ''Can't handle release: %+v'' [ReleaseArg None],
         Queue_Done ''b/x'']"
proof -
  let ?w = "sample_world [''a/r3'', ''a/r1''] no_failures"
  let ?v = "sample_world [''b/x''] no_failures"
  have w1: "pending (queue ?w) = ''a/r3'' # [''a/r1'']" by (simp add: sample_defs)
  have w2: "SplitMetaNamespaceKey sample_rc ''a/r3'' = Inr (''a'', ''r3'')"
    by (simp add: sample_defs)
  have w3: "(releaseLister_Get sample_rc ''a'' ''r3'' = Inr (sample_release ''a'' ''r3'')
          \<and> manager_Trigger sample_rc (sample_release ''a'' ''r3'') = Some (Failed ''trigger failed'')
          \<and> Manager_Trigger (sample_release ''a'' ''r3'') = Manager_Trigger (sample_release ''a'' ''r3'')
          \<and> Some (sample_release ''a'' ''r3'') = Some (sample_release ''a'' ''r3''))
       \<or> (releaseLister_Get sample_rc ''a'' ''r3'' = Inl (NotFound ''r3'')
          \<and> IsNotFound (NotFound ''r3'')
          \<and> manager_Delete sample_rc ''a'' ''r3'' = Some (Failed ''trigger failed'')
          \<and> Manager_Trigger (sample_release ''a'' ''r3'') = Manager_Delete ''a'' ''r3''
          \<and> Some (sample_release ''a'' ''r3'') = None)"
    by (simp add: sample_defs)
  have w4: "processNextWorkItem sample_rc ?w =
    (fst (processNextWorkItem sample_rc ?w), snd (processNextWorkItem sample_rc ?w))" by simp
  have v1: "pending (queue ?v) = ''b/x'' # []" by (simp add: sample_defs)
  have v2: "SplitMetaNamespaceKey sample_rc ''b/x'' = Inr (''b'', ''x'')"
    by (simp add: sample_defs)
  have v3: "(releaseLister_Get sample_rc ''b'' ''x'' = Inr (sample_release ''b'' ''x'')
          \<and> manager_Trigger sample_rc (sample_release ''b'' ''x'') = Some (Failed ''delete failed'')
          \<and> Manager_Delete ''b'' ''x'' = Manager_Trigger (sample_release ''b'' ''x'')
          \<and> None = Some (sample_release ''b'' ''x''))
       \<or> (releaseLister_Get sample_rc ''b'' ''x'' = Inl (NotFound ''x'')
          \<and> IsNotFound (NotFound ''x'')
          \<and> manager_Delete sample_rc ''b'' ''x'' = Some (Failed ''delete failed'')
          \<and> Manager_Delete ''b'' ''x'' = Manager_Delete ''b'' ''x''
          \<and> (None :: Release option) = None)"
    by (simp add: sample_defs)
  have v4: "processNextWorkItem sample_rc ?v =
    (fst (processNextWorkItem sample_rc ?v), snd (processNextWorkItem sample_rc ?v))" by simp
  have w5: "waiting (queue ?w) = []" by (simp add: sample_defs)
  from action_error_requeued_then_done [OF w1 w2 w3 w4]
       action_error_requeued_then_done [OF v1 v2 v3 v4] w5
  show ?thesis by simp
qed

text \<open>
  Claim C5. For every dequeued key whose decoding into namespace and name fails, the
  worker logs the failure and drops the item: it calls neither \<open>Trigger\<close> nor \<open>Delete\<close>
  nor \<open>AddRateLimited\<close>; after the deferred \<open>Done(key)\<close> the key is neither pending nor
  waiting for a retry, and the failure counters are unchanged.
\<close>

theorem decode_failure_logged_and_dropped:
  assumes "pending (queue w) = key # rest"
    and "SplitMetaNamespaceKey rc key = Inl err"
    and "processNextWorkItem rc w = (r, w')"
  shows "r = Some False
    \<and> emitted w w' =
        [Queue_Get,
         Glog_V_Infof 4 ''Handle release by key: %s'' [KeyArg key],
         Glog_Errorf ''Can't recognize key of release: %s'' [KeyArg key],
         Queue_Done key]
    \<and> pending (queue w') = rest
    \<and> waiting (queue w') = waiting (queue w)
    \<and> failures (queue w') = failures (queue w)
    \<and> dirty (queue w') = dirty (queue w) - {key}
    \<and> processing (queue w') = processing (queue w) - {key}"
  using assms by (auto simp: pnwi_defs emitted_def)

theorem decode_failure_logged_and_dropped_witness:
  "SplitMetaNamespaceKey sample_rc ''bad/key/format'' = Inl (Failed ''unexpected key format'')
   \<and> fst (processNextWorkItem sample_rc (sample_world [''bad/key/format''] no_failures)) = Some False
   \<and> emitted (sample_world [''bad/key/format''] no_failures)
       (snd (processNextWorkItem sample_rc (sample_world [''bad/key/format''] no_failures))) =
        [Queue_Get,
         Glog_V_Infof 4 ''Handle release by key: %s'' [KeyArg ''bad/key/format''],
         Glog_Errorf ''Can't recognize key of release: %s'' [KeyArg ''bad/key/format''],
         Queue_Done ''bad/key/format'']
   \<and> pending (queue (snd (processNextWorkItem sample_rc
         (sample_world [''bad/key/format''] no_failures)))) = []
   \<and> waiting (queue (snd (processNextWorkItem sample_rc
         (sample_world [''bad/key/format''] no_failures)))) = []
   \<and> dirty (queue (snd (processNextWorkItem sample_rc
         (sample_world [''bad/key/format''] no_failures)))) = {}"
proof -
  let ?w = "sample_world [''bad/key/format''] no_failures"
  have 1: "pending (queue ?w) = ''bad/key/format'' # []" by (simp add: sample_defs)
  have 2: "SplitMetaNamespaceKey sample_rc ''bad/key/format'' = Inl (Failed ''unexpected key format'')"
    by (simp add: sample_defs)
  have 3: "processNextWorkItem sample_rc ?w =
    (fst (processNextWorkItem sample_rc ?w), snd (processNextWorkItem sample_rc ?w))" by simp
  have 4: "waiting (queue ?w) = []" "dirty (queue ?w) = {''bad/key/format''}"
    by (simp_all add: sample_defs)
  from decode_failure_logged_and_dropped [OF 1 2 3] 2 4 show ?thesis by simp
qed

text \<open>
  Claim C9. \<open>processNextWorkItem\<close> returns \<open>true\<close> if and only if a key was dequeued and
  handled without error; it does not return only when \<open>Get\<close> blocks; it returns \<open>false\<close>
  on queue shutdown, on a key decode failure, on a lookup error that is not a not-found
  error, and on an error of \<open>Trigger\<close> or \<open>Delete\<close>. So the drain loop of the worker ends
  at the first failing item: when the keys \<open>ks\<close> ahead of the failing key are all handled
  without error, the cycle returns with the keys behind the failing one still pending,
  the next cycle of \<open>wait.Until\<close> starts from there, and that cycle calls \<open>manager.Run()\<close>
  first, before any item is dequeued again.
\<close>

theorem processNextWorkItem_true_iff_handled:
  "(fst (processNextWorkItem rc w) = Some True \<longleftrightarrow>
      (\<exists>key rest. pending (queue w) = key # rest \<and> handled_without_error rc key))
   \<and> (fst (processNextWorkItem rc w) = None \<longleftrightarrow>
      pending (queue w) = [] \<and> \<not> shuttingDown (queue w))
   \<and> (pending (queue w) = [] \<and> shuttingDown (queue w) \<longrightarrow>
        fst (processNextWorkItem rc w) = Some False)
   \<and> (pending (queue w) = key # rest \<and> SplitMetaNamespaceKey rc key = Inl err \<longrightarrow>
        fst (processNextWorkItem rc w) = Some False)
   \<and> (pending (queue w) = key # rest \<and> SplitMetaNamespaceKey rc key = Inr (namespace, name)
        \<and> releaseLister_Get rc namespace name = Inl err \<and> \<not> IsNotFound err \<longrightarrow>
        fst (processNextWorkItem rc w) = Some False)
   \<and> (pending (queue w) = key # rest \<and> SplitMetaNamespaceKey rc key = Inr (namespace, name)
        \<and> releaseLister_Get rc namespace name = Inr release
        \<and> manager_Trigger rc release = Some failure \<longrightarrow>
        fst (processNextWorkItem rc w) = Some False)
   \<and> (pending (queue w) = key # rest \<and> SplitMetaNamespaceKey rc key = Inr (namespace, name)
        \<and> releaseLister_Get rc namespace name = Inl err \<and> IsNotFound err
        \<and> manager_Delete rc namespace name = Some failure \<longrightarrow>
        fst (processNextWorkItem rc w) = Some False)
   \<and> (pending (queue w) = ks @ key # rest
        \<and> (\<forall>k\<in>set ks. handled_without_error rc k) \<and> \<not> handled_without_error rc key \<longrightarrow>
        fst (worker rc w) = Some ()
        \<and> pending (queue (snd (worker rc w))) = rest
        \<and> wait_Until_worker rc (Suc n) w = wait_Until_worker rc n (snd (worker rc w))
        \<and> (\<exists>es. emitted (snd (worker rc w)) (snd (worker rc (snd (worker rc w))))
                   = Manager_Run # es \<and> list_all item_event es))"
proof -
  have a: "fst (processNextWorkItem rc w) = Some True \<longleftrightarrow>
      (\<exists>key rest. pending (queue w) = key # rest \<and> handled_without_error rc key)"
  proof (cases "pending (queue w)")
    case Nil
    with pnwi_empty [OF Nil, of rc] show ?thesis by simp
  next
    case (Cons k ks')
    with pnwi_head [OF Cons, of rc] show ?thesis by simp
  qed
  have b: "fst (processNextWorkItem rc w) = None \<longleftrightarrow>
      pending (queue w) = [] \<and> \<not> shuttingDown (queue w)"
  proof (cases "pending (queue w)")
    case Nil
    with pnwi_empty [OF Nil, of rc] show ?thesis by simp
  next
    case (Cons k ks')
    with pnwi_head [OF Cons, of rc] show ?thesis by simp
  qed
  have c: "pending (queue w) = [] \<and> shuttingDown (queue w) \<longrightarrow>
        fst (processNextWorkItem rc w) = Some False"
    using pnwi_empty [of w rc] by simp
  have d: "pending (queue w) = key # rest \<and> \<not> handled_without_error rc key \<longrightarrow>
        fst (processNextWorkItem rc w) = Some False"
    using pnwi_head [of w key rest rc] by simp
  have e: "SplitMetaNamespaceKey rc key = Inl err \<longrightarrow> \<not> handled_without_error rc key"
    by (simp add: handled_without_error_def)
  have f: "SplitMetaNamespaceKey rc key = Inr (namespace, name)
        \<and> releaseLister_Get rc namespace name = Inl err \<and> \<not> IsNotFound err \<longrightarrow>
        \<not> handled_without_error rc key"
    by (simp add: handled_without_error_def)
  have g: "SplitMetaNamespaceKey rc key = Inr (namespace, name)
        \<and> releaseLister_Get rc namespace name = Inr release
        \<and> manager_Trigger rc release = Some failure \<longrightarrow> \<not> handled_without_error rc key"
    by (simp add: handled_without_error_def)
  have h: "SplitMetaNamespaceKey rc key = Inr (namespace, name)
        \<and> releaseLister_Get rc namespace name = Inl err \<and> IsNotFound err
        \<and> manager_Delete rc namespace name = Some failure \<longrightarrow> \<not> handled_without_error rc key"
    by (simp add: handled_without_error_def)
  have i: "pending (queue w) = ks @ key # rest
        \<and> (\<forall>k\<in>set ks. handled_without_error rc k) \<and> \<not> handled_without_error rc key \<longrightarrow>
        fst (worker rc w) = Some ()
        \<and> pending (queue (snd (worker rc w))) = rest
        \<and> wait_Until_worker rc (Suc n) w = wait_Until_worker rc n (snd (worker rc w))"
  proof (intro impI, elim conjE)
    assume p: "pending (queue w) = ks @ key # rest"
      "\<forall>k\<in>set ks. handled_without_error rc k" "\<not> handled_without_error rc key"
    from worker_first_failure [OF p]
    have r: "fst (worker rc w) = Some ()" "pending (queue (snd (worker rc w))) = rest"
      by simp_all
    from r(1) have "wait_Until_worker rc (Suc n) w = wait_Until_worker rc n (snd (worker rc w))"
      by (cases "worker rc w") simp
    with r show "fst (worker rc w) = Some ()
        \<and> pending (queue (snd (worker rc w))) = rest
        \<and> wait_Until_worker rc (Suc n) w = wait_Until_worker rc n (snd (worker rc w))"
      by simp
  qed
  have j: "\<exists>es. emitted (snd (worker rc w)) (snd (worker rc (snd (worker rc w))))
                   = Manager_Run # es \<and> list_all item_event es"
  proof -
    from worker_trace [of rc "snd (worker rc w)"] obtain es where
      es: "trace (snd (worker rc (snd (worker rc w)))) = trace (snd (worker rc w)) @ Manager_Run # es"
        "list_all item_event es" by blast
    from emitted_append [OF es(1)] es(2) show ?thesis by simp
  qed
  from d e have c4: "pending (queue w) = key # rest \<and> SplitMetaNamespaceKey rc key = Inl err \<longrightarrow>
        fst (processNextWorkItem rc w) = Some False" by blast
  from d f have c5: "pending (queue w) = key # rest \<and> SplitMetaNamespaceKey rc key = Inr (namespace, name)
        \<and> releaseLister_Get rc namespace name = Inl err \<and> \<not> IsNotFound err \<longrightarrow>
        fst (processNextWorkItem rc w) = Some False" by blast
  from d g have c6: "pending (queue w) = key # rest \<and> SplitMetaNamespaceKey rc key = Inr (namespace, name)
        \<and> releaseLister_Get rc namespace name = Inr release
        \<and> manager_Trigger rc release = Some failure \<longrightarrow>
        fst (processNextWorkItem rc w) = Some False" by blast
  from d h have c7: "pending (queue w) = key # rest \<and> SplitMetaNamespaceKey rc key = Inr (namespace, name)
        \<and> releaseLister_Get rc namespace name = Inl err \<and> IsNotFound err
        \<and> manager_Delete rc namespace name = Some failure \<longrightarrow>
        fst (processNextWorkItem rc w) = Some False" by blast
  from i j have c8: "pending (queue w) = ks @ key # rest
        \<and> (\<forall>k\<in>set ks. handled_without_error rc k) \<and> \<not> handled_without_error rc key \<longrightarrow>
        fst (worker rc w) = Some ()
        \<and> pending (queue (snd (worker rc w))) = rest
        \<and> wait_Until_worker rc (Suc n) w = wait_Until_worker rc n (snd (worker rc w))
        \<and> (\<exists>es. emitted (snd (worker rc w)) (snd (worker rc (snd (worker rc w))))
                   = Manager_Run # es \<and> list_all item_event es)" by blast
  show ?thesis by (intro conjI a b c c4 c5 c6 c7 c8)
qed

theorem processNextWorkItem_true_iff_handled_witness:
  "fst (processNextWorkItem sample_rc
      (sample_world [''a/r1'', ''a/r2'', ''a/r3'', ''a/r5''] no_failures)) = Some True
   \<and> fst (processNextWorkItem sample_rc
      ((sample_world [] no_failures)\<lparr>queue := wq_ShutDown (queue (sample_world [] no_failures))\<rparr>))
       = Some False
   \<and> fst (processNextWorkItem sample_rc (sample_world [''bad/key/format''] no_failures)) = Some False
   \<and> fst (processNextWorkItem sample_rc (sample_world [''a/r4''] no_failures)) = Some False
   \<and> fst (processNextWorkItem sample_rc (sample_world [''a/r3'', ''a/r5''] no_failures)) = Some False
   \<and> fst (processNextWorkItem sample_rc (sample_world [''b/x''] no_failures)) = Some False
   \<and> fst (worker sample_rc (sample_world [''a/r1'', ''a/r2'', ''a/r3'', ''a/r5''] no_failures))
       = Some ()
   \<and> pending (queue (snd (worker sample_rc
        (sample_world [''a/r1'', ''a/r2'', ''a/r3'', ''a/r5''] no_failures)))) = [''a/r5'']
   \<and> wait_Until_worker sample_rc (Suc (Suc 0))
        (sample_world [''a/r1'', ''a/r2'', ''a/r3'', ''a/r5''] no_failures)
       = wait_Until_worker sample_rc (Suc 0) (snd (worker sample_rc
        (sample_world [''a/r1'', ''a/r2'', ''a/r3'', ''a/r5''] no_failures)))
   \<and> (\<exists>es. emitted
          (snd (worker sample_rc (sample_world [''a/r1'', ''a/r2'', ''a/r3'', ''a/r5''] no_failures)))
          (snd (worker sample_rc (snd (worker sample_rc
             (sample_world [''a/r1'', ''a/r2'', ''a/r3'', ''a/r5''] no_failures)))))
        = Manager_Run # es \<and> list_all item_event es)"
proof -
  let ?W = "sample_world [''a/r1'', ''a/r2'', ''a/r3'', ''a/r5''] no_failures"
  let ?S = "(sample_world [] no_failures)\<lparr>queue := wq_ShutDown (queue (sample_world [] no_failures))\<rparr>"
  have ok: "handled_without_error sample_rc ''a/r1''" "handled_without_error sample_rc ''a/r2''"
    by (simp_all add: handled_without_error_def sample_defs)
  have bad: "\<not> handled_without_error sample_rc ''a/r3''"
    by (simp add: handled_without_error_def sample_defs)
  have pW: "pending (queue ?W) = ''a/r1'' # [''a/r2'', ''a/r3'', ''a/r5'']"
    "pending (queue ?W) = [''a/r1'', ''a/r2''] @ ''a/r3'' # [''a/r5'']"
    by (simp_all add: sample_defs)
  have pS: "pending (queue ?S) = [] \<and> shuttingDown (queue ?S)"
    by (simp add: sample_defs wq_ShutDown_def)
  have dec: "pending (queue (sample_world [''bad/key/format''] no_failures)) = ''bad/key/format'' # []
    \<and> SplitMetaNamespaceKey sample_rc ''bad/key/format'' = Inl (Failed ''unexpected key format'')"
    by (simp add: sample_defs)
  have look: "pending (queue (sample_world [''a/r4''] no_failures)) = ''a/r4'' # []
    \<and> SplitMetaNamespaceKey sample_rc ''a/r4'' = Inr (''a'', ''r4'')
    \<and> releaseLister_Get sample_rc ''a'' ''r4'' = Inl (Failed ''cache unavailable'')
    \<and> \<not> IsNotFound (Failed ''cache unavailable'')"
    by (simp add: sample_defs)
  have trig: "pending (queue (sample_world [''a/r3'', ''a/r5''] no_failures)) = ''a/r3'' # [''a/r5'']
    \<and> SplitMetaNamespaceKey sample_rc ''a/r3'' = Inr (''a'', ''r3'')
    \<and> releaseLister_Get sample_rc ''a'' ''r3'' = Inr (sample_release ''a'' ''r3'')
    \<and> manager_Trigger sample_rc (sample_release ''a'' ''r3'') = Some (Failed ''trigger failed'')"
    by (simp add: sample_defs)
  have del: "pending (queue (sample_world [''b/x''] no_failures)) = ''b/x'' # []
    \<and> SplitMetaNamespaceKey sample_rc ''b/x'' = Inr (''b'', ''x'')
    \<and> releaseLister_Get sample_rc ''b'' ''x'' = Inl (NotFound ''x'')
    \<and> IsNotFound (NotFound ''x'')
    \<and> manager_Delete sample_rc ''b'' ''x'' = Some (Failed ''delete failed'')"
    by (simp add: sample_defs)
  note T = processNextWorkItem_true_iff_handled
  have 1: "fst (processNextWorkItem sample_rc ?W) = Some True"
    by (rule T [THEN conjunct1, THEN iffD2]) (intro exI conjI, rule pW(1), rule ok(1))
  have 2: "fst (processNextWorkItem sample_rc ?S) = Some False"
    by (rule T [THEN conjunct2, THEN conjunct2, THEN conjunct1, THEN mp]) (rule pS)
  have 3: "fst (processNextWorkItem sample_rc (sample_world [''bad/key/format''] no_failures)) = Some False"
    by (rule T [THEN conjunct2, THEN conjunct2, THEN conjunct2, THEN conjunct1, THEN mp])
      (rule dec)
  have 4: "fst (processNextWorkItem sample_rc (sample_world [''a/r4''] no_failures)) = Some False"
    by (rule T [THEN conjunct2, THEN conjunct2, THEN conjunct2, THEN conjunct2, THEN conjunct1,
        THEN mp]) (rule look)
  have 5: "fst (processNextWorkItem sample_rc (sample_world [''a/r3'', ''a/r5''] no_failures)) = Some False"
    by (rule T [THEN conjunct2, THEN conjunct2, THEN conjunct2, THEN conjunct2, THEN conjunct2,
        THEN conjunct1, THEN mp]) (rule trig)
  have 6: "fst (processNextWorkItem sample_rc (sample_world [''b/x''] no_failures)) = Some False"
    by (rule T [THEN conjunct2, THEN conjunct2, THEN conjunct2, THEN conjunct2, THEN conjunct2,
        THEN conjunct2, THEN conjunct1, THEN mp]) (rule del)
  have all_ok: "\<forall>k\<in>set [''a/r1'', ''a/r2'']. handled_without_error sample_rc k"
    using ok by simp
  have 7: "fst (worker sample_rc ?W) = Some ()
        \<and> pending (queue (snd (worker sample_rc ?W))) = [''a/r5'']
        \<and> wait_Until_worker sample_rc (Suc (Suc 0)) ?W
            = wait_Until_worker sample_rc (Suc 0) (snd (worker sample_rc ?W))
        \<and> (\<exists>es. emitted (snd (worker sample_rc ?W)) (snd (worker sample_rc (snd (worker sample_rc ?W))))
                   = Manager_Run # es \<and> list_all item_event es)"
    by (rule T [THEN conjunct2, THEN conjunct2, THEN conjunct2, THEN conjunct2, THEN conjunct2,
        THEN conjunct2, THEN conjunct2, THEN mp]) (intro conjI, rule pW(2), rule all_ok, rule bad)
  show ?thesis by (intro conjI 1 2 3 4 5 6 7 [THEN conjunct1] 7 [THEN conjunct2, THEN conjunct1]
      7 [THEN conjunct2, THEN conjunct2, THEN conjunct1]
      7 [THEN conjunct2, THEN conjunct2, THEN conjunct2])
qed

text \<open>
  Claim C10. For every key dequeued by \<open>Get\<close>, \<open>processNextWorkItem\<close> returns, and
  \<open>Done(key)\<close> is called exactly once before it does, as its last call, on every path
  (decode failure, lookup error, failure or success of \<open>Trigger\<close> or \<open>Delete\<close>); no
  \<open>Done\<close> of another key is called, and afterwards the key is not marked as processing.
\<close>

theorem dequeued_key_done_exactly_once:
  assumes "pending (queue w) = key # rest"
    and "processNextWorkItem rc w = (r, w')"
  shows "r \<noteq> None
    \<and> (\<exists>es. emitted w w' = es @ [Queue_Done key] \<and> (\<forall>k. Queue_Done k \<notin> set es))
    \<and> count_list (emitted w w') (Queue_Done key) = 1
    \<and> processing (queue w') = processing (queue w) - {key}
    \<and> key \<notin> processing (queue w')"
proof -
  let ?es = "emitted w (snd (processNextWorkItem rc w))"
  from pnwi_head [OF assms(1), of rc] assms(2) have ret: "r \<noteq> None" by simp
  have shape: "?es \<noteq> [] \<and> last ?es = Queue_Done key
      \<and> (\<forall>k. Queue_Done k \<notin> set (butlast ?es))
      \<and> processing (queue (snd (processNextWorkItem rc w))) = processing (queue w) - {key}"
    using assms(1)
    by (simp add: pnwi_defs emitted_def split: sum.splits prod.splits)
  from shape have split: "?es = butlast ?es @ [Queue_Done key]"
    by (metis append_butlast_last_id)
  have "count_list ?es (Queue_Done key) = count_list (butlast ?es @ [Queue_Done key]) (Queue_Done key)"
    using split by simp
  also have "\<dots> = 1"
    using shape by (simp add: count_list_0_iff)
  finally have "count_list ?es (Queue_Done key) = 1" .
  with ret shape split assms(2) show ?thesis by auto
qed

theorem dequeued_key_done_exactly_once_witness:
  "count_list (emitted (sample_world [''a/r4'', ''a/r1''] no_failures)
       (snd (processNextWorkItem sample_rc (sample_world [''a/r4'', ''a/r1''] no_failures))))
     (Queue_Done ''a/r4'') = 1
   \<and> processing (queue (snd (processNextWorkItem sample_rc
        (sample_world [''a/r4'', ''a/r1''] no_failures)))) = {}
   \<and> count_list (emitted (sample_world [''bad/key/format''] no_failures)
       (snd (processNextWorkItem sample_rc (sample_world [''bad/key/format''] no_failures))))
     (Queue_Done ''bad/key/format'') = 1
   \<and> count_list (emitted (sample_world [''a/r3''] no_failures)
       (snd (processNextWorkItem sample_rc (sample_world [''a/r3''] no_failures))))
     (Queue_Done ''a/r3'') = 1
   \<and> count_list (emitted (sample_world [''a/r2''] no_failures)
       (snd (processNextWorkItem sample_rc (sample_world [''a/r2''] no_failures))))
     (Queue_Done ''a/r2'') = 1"
proof -
  let ?w = "sample_world [''a/r4'', ''a/r1''] no_failures"
  let ?b = "sample_world [''bad/key/format''] no_failures"
  let ?c = "sample_world [''a/r3''] no_failures"
  let ?d = "sample_world [''a/r2''] no_failures"
  have 1: "pending (queue ?w) = ''a/r4'' # [''a/r1'']" "pending (queue ?b) = ''bad/key/format'' # []"
    "pending (queue ?c) = ''a/r3'' # []" "pending (queue ?d) = ''a/r2'' # []"
    by (simp_all add: sample_defs)
  have 2: "processing (queue ?w) = {}" by (simp add: sample_defs)
  have 3: "\<And>w. processNextWorkItem sample_rc w =
    (fst (processNextWorkItem sample_rc w), snd (processNextWorkItem sample_rc w))" by simp
  from dequeued_key_done_exactly_once [OF 1(1) 3] dequeued_key_done_exactly_once [OF 1(2) 3]
    dequeued_key_done_exactly_once [OF 1(3) 3] dequeued_key_done_exactly_once [OF 1(4) 3] 2
  show ?thesis by simp
qed

section \<open>Properties of the worker cycle and of the controller's life cycle\<close>

text \<open>
  Claim C6. In every worker wake-up cycle (one call of \<open>worker\<close>) the consistency sweep
  \<open>manager.Run()\<close> is called exactly once, and it is the first call of the cycle: every
  other call of the cycle, so every \<open>Trigger\<close> and \<open>Delete\<close>, comes after it, and the
  items handled in the cycle, however many, cause no further sweep.
\<close>

theorem worker_cycle_sweeps_once_first:
  "\<exists>es. emitted w (snd (worker rc w)) = Manager_Run # es
        \<and> Manager_Run \<notin> set es
        \<and> list_all item_event es"
proof -
  from worker_trace [of rc w] obtain es where
    es: "trace (snd (worker rc w)) = trace w @ Manager_Run # es" "list_all item_event es"
    by blast
  from es(2) have "Manager_Run \<notin> set es"
    using item_event_set by fastforce
  with es emitted_append [OF es(1)] show ?thesis by simp
qed

theorem worker_cycle_sweeps_once_first_witness:
  "emitted (sample_world [''a/r1'', ''a/r2'', ''a/r3'', ''a/r5''] no_failures)
     (snd (worker sample_rc (sample_world [''a/r1'', ''a/r2'', ''a/r3'', ''a/r5''] no_failures)))
   = Manager_Run # tl (emitted (sample_world [''a/r1'', ''a/r2'', ''a/r3'', ''a/r5''] no_failures)
     (snd (worker sample_rc (sample_world [''a/r1'', ''a/r2'', ''a/r3'', ''a/r5''] no_failures))))
   \<and> Manager_Run \<notin> set (tl (emitted (sample_world [''a/r1'', ''a/r2'', ''a/r3'', ''a/r5''] no_failures)
     (snd (worker sample_rc (sample_world [''a/r1'', ''a/r2'', ''a/r3'', ''a/r5''] no_failures)))))
   \<and> Manager_Trigger (sample_release ''a'' ''r2'') \<in> set (tl (emitted (sample_world [''a/r1'', ''a/r2'', ''a/r3'', ''a/r5''] no_failures)
     (snd (worker sample_rc (sample_world [''a/r1'', ''a/r2'', ''a/r3'', ''a/r5''] no_failures)))))"
proof -
  let ?w = "sample_world [''a/r1'', ''a/r2'', ''a/r3'', ''a/r5''] no_failures"
  from worker_cycle_sweeps_once_first [of ?w sample_rc] obtain es where
    es: "emitted ?w (snd (worker sample_rc ?w)) = Manager_Run # es" "Manager_Run \<notin> set es"
    by blast
  have "Manager_Trigger (sample_release ''a'' ''r2'') \<in> set (trace (snd (worker sample_rc ?w)))"
    by code_simp
  moreover have "trace ?w = []" by (simp add: sample_defs)
  ultimately have "Manager_Trigger (sample_release ''a'' ''r2'') \<in> set (emitted ?w (snd (worker sample_rc ?w)))"
    by (simp add: emitted_def)
  with es show ?thesis by simp
qed

text \<open>
  Claim C3. The claim reads: when the stop signal fires, \<open>Run\<close> lets the reconciliations
  in flight finish and then calls \<open>ShutDown()\<close> on the queue before it returns, which
  unblocks every pending \<open>Get\<close>. The code does neither: after \<open>go wait.Until(...)\<close> it
  waits for the stop signal only, logs and returns, without joining the goroutine, and
  \<open>ShutDown\<close> is called nowhere. In the sample run the cache has synced and the stop
  signal arrives when the worker has dequeued \<open>a/r2\<close> and called \<open>Trigger\<close> for it:
  \<open>Run\<close> returns with \<open>a/r2\<close> still marked as processing and its \<open>Done\<close> not called,
  no \<open>ShutDown\<close> is in the trace, the queue is not shut down and a \<open>Get\<close> on it blocks,
  where it would return after a \<open>ShutDown\<close>.
\<close>

theorem Run_shutdown_counterexample:
  "WaitForCacheSync sample_rc
   \<and> trace (Run sample_rc 1 6 (sample_world [''a/r2''] no_failures)) =
       [Glog_Info ''Running ReleaseController'',
        Cache_WaitForCacheSync,
        Glog_Info ''Sync ReleaseController cache successfully'',
        Go_wait_Until_worker,
        Manager_Run,
        Glog_V_Infof 3 ''Processing ReleaseController releases'' [],
        Queue_Get,
        Glog_V_Infof 4 ''Handle release by key: %s'' [KeyArg ''a/r2''],
        Lister_Get ''a'' ''r2'',
        Manager_Trigger (sample_release ''a'' ''r2''),
        Recv_stopCh,
        Glog_Info ''Shutting down ReleaseController'']
   \<and> processing (queue (Run sample_rc 1 6 (sample_world [''a/r2''] no_failures))) = {''a/r2''}
   \<and> Queue_Done ''a/r2'' \<notin> set (trace (Run sample_rc 1 6 (sample_world [''a/r2''] no_failures)))
   \<and> Queue_ShutDown \<notin> set (trace (Run sample_rc 1 6 (sample_world [''a/r2''] no_failures)))
   \<and> \<not> shuttingDown (queue (Run sample_rc 1 6 (sample_world [''a/r2''] no_failures)))
   \<and> fst (wq_Get (queue (Run sample_rc 1 6 (sample_world [''a/r2''] no_failures)))) = Blocks
   \<and> fst (wq_Get (wq_ShutDown (queue (Run sample_rc 1 6 (sample_world [''a/r2''] no_failures)))))
       = Quit"
  by code_simp

text \<open>
  Claim C3, as amended. When the stop signal fires, \<open>Run\<close> logs the shutdown and
  returns without waiting for the worker goroutine: whatever number \<open>k\<close> of calls the
  goroutine has made by then, \<open>Run\<close> returns in the state after exactly these calls,
  and a key that a \<open>Get\<close> among them handed out, with no \<open>Done\<close> of it since, is still
  marked as processing when \<open>Run\<close> returns. \<open>Run\<close> never calls \<open>ShutDown()\<close> on the
  queue, and neither does the worker goroutine: the shut-down flag of the queue is
  after \<open>Run\<close> what it was before, and a \<open>Get\<close> on the empty queue, blocked before,
  stays blocked.
\<close>

theorem Run_returns_without_waiting_or_ShutDown:
  assumes "w4 = emit Go_wait_Until_worker
             (emit (Glog_Info ''Sync ReleaseController cache successfully'')
               (emit Cache_WaitForCacheSync (emit (Glog_Info ''Running ReleaseController'') w)))"
  shows "Queue_ShutDown \<notin> set (emitted w (Run rc n k w))
   \<and> shuttingDown (queue (Run rc n k w)) = shuttingDown (queue w)
   \<and> (WaitForCacheSync rc \<longrightarrow>
        emitted w (Run rc n k w) =
          [Glog_Info ''Running ReleaseController'',
           Cache_WaitForCacheSync,
           Glog_Info ''Sync ReleaseController cache successfully'',
           Go_wait_Until_worker]
          @ take k (goroutine_calls rc n w4)
          @ [Recv_stopCh, Glog_Info ''Shutting down ReleaseController'']
        \<and> queue (Run rc n k w) = queue_after_calls (take k (goroutine_calls rc n w4)) (queue w))
   \<and> (WaitForCacheSync rc
        \<and> take k (goroutine_calls rc n w4) = before @ Queue_Get # after
        \<and> pending (queue_after_calls before (queue w)) = key # rest
        \<and> Queue_Done key \<notin> set after \<longrightarrow>
        key \<in> processing (queue (Run rc n k w))
        \<and> Queue_Done key \<notin> set (drop (length before) (take k (goroutine_calls rc n w4))))
   \<and> (\<not> shuttingDown (queue w) \<and> pending (queue (Run rc n k w)) = [] \<longrightarrow>
        fst (wq_Get (queue (Run rc n k w))) = Blocks)"
proof -
  let ?calls = "take k (goroutine_calls rc n w4)"
  have nsd: "Queue_ShutDown \<notin> set ?calls"
    using goroutine_calls_trace [of rc n w4] by (auto dest: in_set_takeD)
  have q4: "queue w4 = queue w"
    by (simp add: assms emit_def)
  have ev: "WaitForCacheSync rc \<longrightarrow>
        emitted w (Run rc n k w) =
          [Glog_Info ''Running ReleaseController'', Cache_WaitForCacheSync,
           Glog_Info ''Sync ReleaseController cache successfully'', Go_wait_Until_worker]
          @ ?calls @ [Recv_stopCh, Glog_Info ''Shutting down ReleaseController'']
        \<and> queue (Run rc n k w) = queue_after_calls ?calls (queue w)"
    by (simp add: Run_def Let_def emit_def emitted_def goroutine_after_def assms)
  have sd: "shuttingDown (queue (Run rc n k w)) = shuttingDown (queue w)"
  proof (cases "WaitForCacheSync rc")
    case False
    then show ?thesis by (simp add: Run_def emit_def)
  next
    case True
    with ev queue_after_calls_shuttingDown [OF nsd, of "queue w"] show ?thesis by simp
  qed
  have no: "Queue_ShutDown \<notin> set (emitted w (Run rc n k w))"
  proof (cases "WaitForCacheSync rc")
    case False
    then show ?thesis by (simp add: Run_def emit_def emitted_def)
  next
    case True
    with ev nsd show ?thesis by simp
  qed
  have fl: "WaitForCacheSync rc
        \<and> ?calls = before @ Queue_Get # after
        \<and> pending (queue_after_calls before (queue w)) = key # rest
        \<and> Queue_Done key \<notin> set after \<longrightarrow>
        key \<in> processing (queue (Run rc n k w))
        \<and> Queue_Done key \<notin> set (drop (length before) ?calls)"
  proof (intro impI, elim conjE)
    assume s: "WaitForCacheSync rc" and c: "?calls = before @ Queue_Get # after"
      and p: "pending (queue_after_calls before (queue w)) = key # rest"
      and d: "Queue_Done key \<notin> set after"
    from p have "key \<in> processing (queue_after_call Queue_Get (queue_after_calls before (queue w)))"
      by (simp add: wq_Get_def)
    from queue_after_calls_processing [OF this d]
    have "key \<in> processing (queue_after_calls (before @ Queue_Get # after) (queue w))"
      by (simp add: queue_after_calls_append)
    with s ev c have 1: "key \<in> processing (queue (Run rc n k w))" by simp
    from c d have 2: "Queue_Done key \<notin> set (drop (length before) ?calls)" by simp
    from 1 2 show "key \<in> processing (queue (Run rc n k w))
        \<and> Queue_Done key \<notin> set (drop (length before) ?calls)" ..
  qed
  have bl: "\<not> shuttingDown (queue w) \<and> pending (queue (Run rc n k w)) = [] \<longrightarrow>
        fst (wq_Get (queue (Run rc n k w))) = Blocks"
    using sd by (simp add: wq_Get_def)
  show ?thesis by (intro conjI no sd ev fl bl)
qed

theorem Run_returns_without_waiting_or_ShutDown_witness:
  "Queue_ShutDown \<notin> set (emitted (sample_world [''a/r2''] no_failures)
      (Run sample_rc 1 6 (sample_world [''a/r2''] no_failures)))
   \<and> \<not> shuttingDown (queue (Run sample_rc 1 6 (sample_world [''a/r2''] no_failures)))
   \<and> emitted (sample_world [''a/r2''] no_failures)
        (Run sample_rc 1 6 (sample_world [''a/r2''] no_failures)) =
       [Glog_Info ''Running ReleaseController'',
        Cache_WaitForCacheSync,
        Glog_Info ''Sync ReleaseController cache successfully'',
        Go_wait_Until_worker,
        Manager_Run,
        Glog_V_Infof 3 ''Processing ReleaseController releases'' [],
        Queue_Get,
        Glog_V_Infof 4 ''Handle release by key: %s'' [KeyArg ''a/r2''],
        Lister_Get ''a'' ''r2'',
        Manager_Trigger (sample_release ''a'' ''r2''),
        Recv_stopCh,
        Glog_Info ''Shutting down ReleaseController'']
   \<and> ''a/r2'' \<in> processing (queue (Run sample_rc 1 6 (sample_world [''a/r2''] no_failures)))
   \<and> fst (wq_Get (queue (Run sample_rc 1 6 (sample_world [''a/r2''] no_failures)))) = Blocks"
proof -
  let ?w = "sample_world [''a/r2''] no_failures"
  let ?w4 = "emit Go_wait_Until_worker
             (emit (Glog_Info ''Sync ReleaseController cache successfully'')
               (emit Cache_WaitForCacheSync (emit (Glog_Info ''Running ReleaseController'') ?w)))"
  let ?before = "[Manager_Run, Glog_V_Infof 3 ''Processing ReleaseController releases'' []]"
  let ?after = "[Glog_V_Infof 4 ''Handle release by key: %s'' [KeyArg ''a/r2''],
        Lister_Get ''a'' ''r2'', Manager_Trigger (sample_release ''a'' ''r2'')]"
  note T = Run_returns_without_waiting_or_ShutDown [OF refl, of ?w sample_rc 1 6
      ?before ?after "''a/r2''" "[]"]
  have 1: "WaitForCacheSync sample_rc" by (simp add: sample_defs)
  have 2: "\<not> shuttingDown (queue ?w)" by (simp add: sample_defs)
  have 3: "pending (queue (Run sample_rc 1 6 ?w)) = []" by code_simp
  have 4: "take 6 (goroutine_calls sample_rc 1 ?w4) = ?before @ Queue_Get # ?after"
    by code_simp
  have 5: "pending (queue_after_calls ?before (queue ?w)) = ''a/r2'' # []"
    by (simp add: sample_defs)
  have 6: "Queue_Done ''a/r2'' \<notin> set ?after" by simp
  have a: "Queue_ShutDown \<notin> set (emitted ?w (Run sample_rc 1 6 ?w))"
    by (rule T [THEN conjunct1])
  have b: "\<not> shuttingDown (queue (Run sample_rc 1 6 ?w))"
    using T [THEN conjunct2, THEN conjunct1] 2 by simp
  have c: "emitted ?w (Run sample_rc 1 6 ?w) =
          [Glog_Info ''Running ReleaseController'', Cache_WaitForCacheSync,
           Glog_Info ''Sync ReleaseController cache successfully'', Go_wait_Until_worker]
          @ take 6 (goroutine_calls sample_rc 1 ?w4)
          @ [Recv_stopCh, Glog_Info ''Shutting down ReleaseController'']"
    using T [THEN conjunct2, THEN conjunct2, THEN conjunct1, THEN mp, OF 1] by (rule conjunct1)
  have d: "''a/r2'' \<in> processing (queue (Run sample_rc 1 6 ?w))"
    using T [THEN conjunct2, THEN conjunct2, THEN conjunct2, THEN conjunct1, THEN mp]
      1 4 5 6 by blast
  have e: "fst (wq_Get (queue (Run sample_rc 1 6 ?w))) = Blocks"
    using T [THEN conjunct2, THEN conjunct2, THEN conjunct2, THEN conjunct2, THEN mp] 2 3
    by blast
  from c 4 have c': "emitted ?w (Run sample_rc 1 6 ?w) =
       [Glog_Info ''Running ReleaseController'',
        Cache_WaitForCacheSync,
        Glog_Info ''Sync ReleaseController cache successfully'',
        Go_wait_Until_worker,
        Manager_Run,
        Glog_V_Infof 3 ''Processing ReleaseController releases'' [],
        Queue_Get,
        Glog_V_Infof 4 ''Handle release by key: %s'' [KeyArg ''a/r2''],
        Lister_Get ''a'' ''r2'',
        Manager_Trigger (sample_release ''a'' ''r2''),
        Recv_stopCh,
        Glog_Info ''Shutting down ReleaseController'']" by simp
  show ?thesis by (intro conjI a b c' d e)
qed

section \<open>Properties of the change notifier\<close>

text \<open>
  Claim C8. Delete events take the enqueue path of add and update events: the three
  handlers are \<open>enqueueRelease\<close> on the object of the event (the new object for an
  update). For every object, a tombstone included, \<open>enqueueRelease\<close> asks the
  deletion-handling key function of the cache library for the key; when a key is
  resolved it calls \<open>Add(key)\<close> on the queue of the controller, and when the derivation
  fails it logs the error and leaves the queue as it was.
\<close>

theorem delete_events_take_the_enqueue_path:
  "handle_event rc (OnDelete obj) w = enqueueRelease rc obj w
   \<and> handle_event rc (OnAdd obj) w = enqueueRelease rc obj w
   \<and> handle_event rc (OnUpdate oldObj obj) w = enqueueRelease rc obj w
   \<and> keyForObj rc obj = DeletionHandlingMetaNamespaceKeyFunc rc obj
   \<and> (keyForObj rc obj = Inr key \<longrightarrow>
        emitted w (enqueueRelease rc obj w) =
          [Glog_V_Infof 4 ''Enqueue: %s'' [KeyArg key], Queue_Add key]
        \<and> queue (enqueueRelease rc obj w) = wq_Add key (queue w))
   \<and> (keyForObj rc obj = Inl err \<longrightarrow>
        emitted w (enqueueRelease rc obj w) =
          [Glog_Errorf ''Can't get obj key: %v'' [ErrArg err]]
        \<and> queue (enqueueRelease rc obj w) = queue w)"
  by (simp add: enqueueRelease_def keyForObj_def queue_Add_def emit_def emitted_def)

theorem delete_events_take_the_enqueue_path_witness:
  "keyForObj sample_rc (DeletedFinalStateUnknown ''a/r1'' (ReleaseObj (sample_release ''a'' ''r1'')))
     = Inr ''a/r1''
   \<and> emitted (sample_world [] no_failures)
        (handle_event sample_rc
          (OnDelete (DeletedFinalStateUnknown ''a/r1'' (ReleaseObj (sample_release ''a'' ''r1''))))
          (sample_world [] no_failures)) =
          [Glog_V_Infof 4 ''Enqueue: %s'' [KeyArg ''a/r1''], Queue_Add ''a/r1'']
   \<and> pending (queue (handle_event sample_rc
          (OnDelete (DeletedFinalStateUnknown ''a/r1'' (ReleaseObj (sample_release ''a'' ''r1''))))
          (sample_world [] no_failures))) = [''a/r1'']
   \<and> keyForObj sample_rc OtherObj = Inl (Failed ''object has no meta'')
   \<and> emitted (sample_world [] no_failures)
        (handle_event sample_rc (OnDelete OtherObj) (sample_world [] no_failures)) =
          [Glog_Errorf ''Can't get obj key: %v'' [ErrArg (Failed ''object has no meta'')]]
   \<and> pending (queue (handle_event sample_rc (OnDelete OtherObj) (sample_world [] no_failures))) = []"
proof -
  let ?w = "sample_world [] no_failures"
  let ?t = "DeletedFinalStateUnknown ''a/r1'' (ReleaseObj (sample_release ''a'' ''r1''))"
  have 1: "keyForObj sample_rc ?t = Inr ''a/r1''"
    by (simp add: keyForObj_def sample_defs)
  have 2: "keyForObj sample_rc OtherObj = Inl (Failed ''object has no meta'')"
    by (simp add: keyForObj_def sample_defs)
  have 3: "pending (wq_Add ''a/r1'' (queue ?w)) = [''a/r1'']" "pending (queue ?w) = []"
    by (simp_all add: wq_Add_def sample_defs)
  from delete_events_take_the_enqueue_path [of sample_rc ?t ?w _ "''a/r1''"]
       delete_events_take_the_enqueue_path [of sample_rc OtherObj ?w _ _ "Failed ''object has no meta''"]
       1 2 3
  show ?thesis by simp
qed

section \<open>Properties of the status model\<close>

text \<open>
  Claim C7. Each of the five condition constructors is a fixed, total mapping from its
  reason to a type and a status: the Creating, Updating and Rollbacking constructors give
  type Progressing with status True, the Available constructor gives type Available with
  status True, the Failure constructor gives type Failure with status True. Every
  constructor fills in all five fields: the type, the status, the reason constant of its
  name, the clock reading taken at the call, and the message (empty, or the caller's
  message for Failure). The five reasons are pairwise distinct, so the reason of a
  constructed condition determines its type and status.
\<close>

theorem condition_constructors_pairing:
  "ConditionCreating now =
     \<lparr>Type = ReleaseProgressing, Status = ConditionTrue, LastTransitionTime = now,
      Reason = ''Creating'', Message = ''''\<rparr>
   \<and> ConditionUpdating now =
     \<lparr>Type = ReleaseProgressing, Status = ConditionTrue, LastTransitionTime = now,
      Reason = ''Updating'', Message = ''''\<rparr>
   \<and> ConditionRollbacking now =
     \<lparr>Type = ReleaseProgressing, Status = ConditionTrue, LastTransitionTime = now,
      Reason = ''Rollbacking'', Message = ''''\<rparr>
   \<and> ConditionAvailable now =
     \<lparr>Type = ReleaseAvailable, Status = ConditionTrue, LastTransitionTime = now,
      Reason = ''Available'', Message = ''''\<rparr>
   \<and> ConditionFailure now msg =
     \<lparr>Type = ReleaseFailure, Status = ConditionTrue, LastTransitionTime = now,
      Reason = ''Failure'', Message = msg\<rparr>
   \<and> distinct [Reason (ConditionCreating now), Reason (ConditionUpdating now),
        Reason (ConditionRollbacking now), Reason (ConditionAvailable now),
        Reason (ConditionFailure now msg)]"
  by (simp add: ConditionCreating_def ConditionUpdating_def ConditionRollbacking_def
      ConditionAvailable_def ConditionFailure_def ReasonCreating_def ReasonUpdating_def
      ReasonRollbacking_def ReasonAvailable_def ReasonFailure_def)

end
